theory Spec2Isabelle
  imports Complex_Main
begin

section \<open>JavaScript values\<close>

text \<open>
  The schema module \<^verbatim>\<open>shared/schema.ts\<close> builds its validators from the combinators of
  the zod library and from drizzle's table declarations, and its coercions call the
  JavaScript built-ins \<^verbatim>\<open>Number\<close>, \<^verbatim>\<open>String\<close> and \<^verbatim>\<open>new Date\<close>. This section models the
  values these operate on.

  A number is NaN, an infinity, the negative zero, or a finite value \<open>Fin r\<close>, \<open>r\<close> being
  its exact rational value (\<open>Fin 0\<close> is the positive zero). The numbers of JavaScript are
  the binary64 values: the finite ones are the rationals \<open>m \<times> 2\<^sup>q\<close> with \<open>\<bar>m\<bar> < 2\<^sup>5\<^sup>3\<close> and
  \<open>-1074 \<le> q \<le> 971\<close>. The conversions below produce such values only.
\<close>

datatype jsnum = NaN | PosInf | NegInf | NegZero | Fin rat

text \<open>
  A \<^verbatim>\<open>Date\<close> object holds a time value: milliseconds since the epoch, or NaN for an
  invalid date (\<open>None\<close>). A string is a list of 8-bit characters. An object is the list
  of its own properties; a property is read with \<open>map_of\<close>.
\<close>

datatype jsval =
    JUndefined
  | JNull
  | JBool bool
  | JNum jsnum
  | JStr string
  | JDate "int option"
  | JArray "jsval list"
  | JObject "(string \<times> jsval) list"

definition get_prop :: "(string \<times> jsval) list \<Rightarrow> string \<Rightarrow> jsval" where
  \<comment> \<open>\<^verbatim>\<open>data[key]\<close>: a property that is not there reads as \<^verbatim>\<open>undefined\<close>\<close>
  "get_prop kvs k = (case map_of kvs k of None \<Rightarrow> JUndefined | Some v \<Rightarrow> v)"

definition has_prop :: "(string \<times> jsval) list \<Rightarrow> string \<Rightarrow> bool" where
  \<comment> \<open>\<^verbatim>\<open>key in data\<close>\<close>
  "has_prop kvs k = (map_of kvs k \<noteq> None)"

subsection \<open>Rounding to binary64\<close>

text \<open>
  The number that a numeric literal denotes is its mathematical value rounded to the
  nearest binary64 value, to the one with the even significand at a tie (ECMAScript
  \<^emph>\<open>RoundMVResult\<close> and \<^emph>\<open>the Number value for\<close>). A value \<open>r\<close> with \<open>2\<^sup>e \<le> r < 2\<^sup>e\<^sup>+\<^sup>1\<close> is rounded
  to a multiple of \<open>2\<^sup>e\<^sup>-\<^sup>5\<^sup>2\<close>, and of \<open>2\<^sup>-\<^sup>1\<^sup>0\<^sup>7\<^sup>4\<close> when it is that small; a result of \<open>2\<^sup>1\<^sup>0\<^sup>2\<^sup>4\<close> or
  more is infinite.
\<close>

fun bit_length :: "nat \<Rightarrow> nat" where
  "bit_length n = (if n = 0 then 0 else Suc (bit_length (n div 2)))"

declare bit_length.simps [simp del]

definition pow2 :: "int \<Rightarrow> rat" where
  "pow2 e = (if 0 \<le> e then 2 ^ nat e else 1 / 2 ^ nat (- e))"

definition binade :: "rat \<Rightarrow> int" where
  \<comment> \<open>for \<open>0 < r\<close>, the \<open>e\<close> with \<open>2\<^sup>e \<le> r < 2\<^sup>e\<^sup>+\<^sup>1\<close>\<close>
  "binade r =
     (if 1 \<le> r then int (bit_length (nat \<lfloor>r\<rfloor>)) - 1
      else - int (bit_length (nat (- \<lfloor>- (1 / r)\<rfloor> - 1))))"

definition nearest_even :: "int \<Rightarrow> rat \<Rightarrow> int" where
  \<comment> \<open>of \<open>f\<close> and \<open>f + 1\<close>, for \<open>f \<le> t < f + 1\<close>, the nearer to \<open>t\<close>, and the even one at a tie\<close>
  "nearest_even f t =
     (if t - of_int f < 1 / 2 then f
      else if 1 / 2 < t - of_int f then f + 1
      else if even f then f else f + 1)"

definition round_half_even :: "rat \<Rightarrow> int" where
  "round_half_even t = nearest_even \<lfloor>t\<rfloor> t"

definition round_at :: "int \<Rightarrow> rat \<Rightarrow> rat" where
  \<comment> \<open>the multiple of \<open>2\<^sup>q\<close> that is nearest to \<open>r\<close>\<close>
  "round_at q r = of_int (round_half_even (r / pow2 q)) * pow2 q"

definition round_magnitude :: "rat \<Rightarrow> rat" where
  \<comment> \<open>for \<open>0 < r\<close>: binary64 has 53 significant bits, and the spacing \<open>2\<^sup>-\<^sup>1\<^sup>0\<^sup>7\<^sup>4\<close> at the least\<close>
  "round_magnitude r = round_at (max (binade r - 52) (- 1074)) r"

definition finite_or_infinite :: "rat \<Rightarrow> jsnum" where
  "finite_or_infinite v = (if 2 ^ 1024 \<le> v then PosInf else Fin v)"

definition to_number :: "rat \<Rightarrow> jsnum" where
  \<comment> \<open>the Number value of a non-negative mathematical value\<close>
  "to_number r = (if r \<le> 0 then Fin 0 else finite_or_infinite (round_magnitude r))"

definition negate :: "jsnum \<Rightarrow> jsnum" where
  "negate n =
     (case n of
        NaN \<Rightarrow> NaN
      | PosInf \<Rightarrow> NegInf
      | NegInf \<Rightarrow> PosInf
      | NegZero \<Rightarrow> Fin 0
      | Fin r \<Rightarrow> if r = 0 then NegZero else Fin (- r))"

subsection \<open>\<^verbatim>\<open>Number(string)\<close>\<close>

text \<open>
  The conversion of a string to a number (ECMAScript \<^emph>\<open>StringToNumber\<close>): white space
  is trimmed; the empty string is 0; a radix-prefixed integer, a signed decimal literal
  with optional fraction and exponent, and a signed \<^verbatim>\<open>Infinity\<close> have their value,
  rounded to binary64; every other string is NaN.
\<close>

definition isStrWhiteSpaceChar :: "char \<Rightarrow> bool" where
  "isStrWhiteSpaceChar c = ((of_char c :: nat) \<in> {9, 10, 11, 12, 13, 32, 160})"

definition trimString :: "string \<Rightarrow> string" where
  "trimString s = rev (dropWhile isStrWhiteSpaceChar (rev (dropWhile isStrWhiteSpaceChar s)))"

definition digit_in :: "nat \<Rightarrow> char \<Rightarrow> nat option" where
  \<comment> \<open>the value of a digit of the given radix\<close>
  "digit_in radix c =
     (let n = (of_char c :: nat);
          d = (if 48 \<le> n \<and> n \<le> 57 then Some (n - 48)
               else if 97 \<le> n \<and> n \<le> 102 then Some (n - 87)
               else if 65 \<le> n \<and> n \<le> 70 then Some (n - 55)
               else None)
      in case d of None \<Rightarrow> None | Some v \<Rightarrow> if v < radix then Some v else None)"

definition is_digit :: "nat \<Rightarrow> char \<Rightarrow> bool" where
  "is_digit radix c = (digit_in radix c \<noteq> None)"

definition digits_value :: "nat \<Rightarrow> string \<Rightarrow> nat" where
  "digits_value radix ds =
     foldl (\<lambda>a c. radix * a + (case digit_in radix c of None \<Rightarrow> 0 | Some v \<Rightarrow> v)) 0 ds"

definition scale10 :: "rat \<Rightarrow> int \<Rightarrow> rat" where
  "scale10 m e = (if 0 \<le> e then m * 10 ^ nat e else m / 10 ^ nat (- e))"

definition exponent_part :: "string \<Rightarrow> int option" where
  \<comment> \<open>what follows the digits of a decimal literal: nothing, or \<^verbatim>\<open>e\<close> and a signed integer\<close>
  "exponent_part s =
     (case s of
        [] \<Rightarrow> Some 0
      | c # r \<Rightarrow>
          if c = CHR ''e'' \<or> c = CHR ''E'' then
            (let (neg, ds) =
               (case r of
                  [] \<Rightarrow> (False, [])
                | d # r' \<Rightarrow> if d = CHR ''-'' then (True, r')
                            else if d = CHR ''+'' then (False, r') else (False, r))
             in if ds \<noteq> [] \<and> list_all (is_digit 10) ds
                then Some (if neg then - int (digits_value 10 ds) else int (digits_value 10 ds))
                else None)
          else None)"

definition unsigned_decimal :: "string \<Rightarrow> jsnum" where
  "unsigned_decimal s =
     (if s = ''Infinity'' then PosInf
      else
        let ip = takeWhile (is_digit 10) s;
            r1 = dropWhile (is_digit 10) s;
            dot = (r1 \<noteq> [] \<and> hd r1 = CHR ''.'');
            fp = (if dot then takeWhile (is_digit 10) (tl r1) else []);
            r2 = (if dot then dropWhile (is_digit 10) (tl r1) else r1)
        in if ip = [] \<and> fp = [] then NaN
           else case exponent_part r2 of
                  None \<Rightarrow> NaN
                | Some e \<Rightarrow>
                    to_number (scale10 (of_nat (digits_value 10 (ip @ fp))) (e - int (length fp))))"

definition radix_literal :: "string \<Rightarrow> jsnum option" where
  \<comment> \<open>\<^verbatim>\<open>0x\<close>, \<^verbatim>\<open>0o\<close> and \<^verbatim>\<open>0b\<close> integers, which take no sign\<close>
  "radix_literal s =
     (case s of
        z # x # ds \<Rightarrow>
          (let radix =
             (if x = CHR ''x'' \<or> x = CHR ''X'' then 16
              else if x = CHR ''o'' \<or> x = CHR ''O'' then 8
              else if x = CHR ''b'' \<or> x = CHR ''B'' then 2 else 0)
           in if z = CHR ''0'' \<and> radix \<noteq> 0 then
                Some (if ds \<noteq> [] \<and> list_all (is_digit radix) ds
                      then to_number (of_nat (digits_value radix ds)) else NaN)
              else None)
      | _ \<Rightarrow> None)"

definition Number_js :: "string \<Rightarrow> jsnum" where
  "Number_js val =
     (let s = trimString val
      in if s = [] then Fin 0
         else case radix_literal s of
                Some n \<Rightarrow> n
              | None \<Rightarrow>
                  if hd s = CHR ''-'' then negate (unsigned_decimal (tl s))
                  else if hd s = CHR ''+'' then unsigned_decimal (tl s)
                  else unsigned_decimal s)"

subsection \<open>\<^verbatim>\<open>String(number)\<close>\<close>

text \<open>
  The conversion of a number to a string (ECMAScript \<^emph>\<open>Number::toString\<close>, radix 10).
  Its digits are those of the shortest decimal \<open>s \<times> 10\<^sup>j\<close> that rounds to the number, and
  of the one nearest to the number when there are several of that length. \<open>shortest\<close>
  looks for it with 1, 2, ... significant digits; 17 digits are enough for every
  binary64 value. With \<open>k\<close> the count of the digits and \<open>n\<close> the position of the decimal
  point, so that the decimal is \<open>0.d\<^sub>1...d\<^sub>k \<times> 10\<^sup>n\<close>, the string is the plain decimal
  expansion when \<open>-6 < n \<le> 21\<close> and the exponent notation otherwise.
\<close>

fun trailing_zeros :: "nat \<Rightarrow> nat" where
  "trailing_zeros n =
     (if n = 0 \<or> n mod 10 \<noteq> 0 then 0 else Suc (trailing_zeros (n div 10)))"

fun digits_of :: "nat \<Rightarrow> string" where
  "digits_of n =
     (if n < 10 then [''0123456789'' ! n]
      else digits_of (n div 10) @ [''0123456789'' ! (n mod 10)])"

declare trailing_zeros.simps [simp del] digits_of.simps [simp del]

definition decimal_exponent :: "rat \<Rightarrow> int" where
  \<comment> \<open>for \<open>0 < x\<close>, the \<open>n\<close> with \<open>10\<^sup>n\<^sup>-\<^sup>1 \<le> x < 10\<^sup>n\<close>\<close>
  "decimal_exponent x =
     (if 1 \<le> x then int (length (digits_of (nat \<lfloor>x\<rfloor>)))
      else 1 - int (length (digits_of (nat (- \<lfloor>- (1 / x)\<rfloor> - 1)))))"

definition pick_nearer :: "rat \<Rightarrow> int \<Rightarrow> int \<Rightarrow> bool \<Rightarrow> bool \<Rightarrow> (int \<times> int) option" where
  \<comment> \<open>of the decimals \<open>lo \<times> 10\<^sup>j\<close> and \<open>(lo + 1) \<times> 10\<^sup>j\<close> around \<open>x\<close>, one that rounds to \<open>x\<close>: the nearer
      to \<open>x\<close> when both do, and the even one at a tie\<close>
  "pick_nearer x j lo ok_lo ok_hi =
     (if ok_lo \<and> ok_hi then
        (if x - scale10 (of_int lo) j < scale10 (of_int (lo + 1)) j - x then Some (lo, j)
         else if scale10 (of_int (lo + 1)) j - x < x - scale10 (of_int lo) j then Some (lo + 1, j)
         else if even lo then Some (lo, j) else Some (lo + 1, j))
      else if ok_lo then Some (lo, j)
      else if ok_hi then Some (lo + 1, j)
      else None)"

definition candidate_at :: "rat \<Rightarrow> int \<Rightarrow> int \<Rightarrow> (int \<times> int) option" where
  "candidate_at x j lo =
     pick_nearer x j lo (to_number (scale10 (of_int lo) j) = Fin x)
       (to_number (scale10 (of_int (lo + 1)) j) = Fin x)"

definition candidate_with :: "rat \<Rightarrow> int \<Rightarrow> (int \<times> int) option" where
  "candidate_with x j = candidate_at x j \<lfloor>scale10 x (- j)\<rfloor>"

definition candidate :: "rat \<Rightarrow> nat \<Rightarrow> (int \<times> int) option" where
  \<comment> \<open>a decimal \<open>s \<times> 10\<^sup>j\<close> of \<open>p\<close> digits that rounds to \<open>x\<close>, if there is one\<close>
  "candidate x p = candidate_with x (decimal_exponent x - int p)"

fun shortest :: "nat \<Rightarrow> nat \<Rightarrow> rat \<Rightarrow> int \<times> int" where
  "shortest 0 p x = (\<lfloor>scale10 x (int p - decimal_exponent x)\<rfloor>, decimal_exponent x - int p)"
| "shortest (Suc fuel) p x =
     (case candidate x p of Some r \<Rightarrow> r | None \<Rightarrow> shortest fuel (Suc p) x)"

definition exponent_string :: "int \<Rightarrow> string" where
  "exponent_string n =
     CHR ''e'' # (if 0 \<le> n - 1 then CHR ''+'' else CHR ''-'') # digits_of (nat \<bar>n - 1\<bar>)"

definition layout :: "string \<Rightarrow> int \<Rightarrow> string" where
  \<comment> \<open>the digits \<open>ds\<close> with the decimal point after the \<open>n\<close>-th of them\<close>
  "layout ds n =
     (if int (length ds) \<le> n \<and> n \<le> 21 then ds @ replicate (nat (n - int (length ds))) CHR ''0''
      else if 0 < n \<and> n \<le> 21 then take (nat n) ds @ CHR ''.'' # drop (nat n) ds
      else if - 6 < n \<and> n \<le> 0 then ''0.'' @ replicate (nat (- n)) CHR ''0'' @ ds
      else if length ds = 1 then ds @ exponent_string n
      else hd ds # CHR ''.'' # tl ds @ exponent_string n)"

definition digits_layout :: "nat \<Rightarrow> nat \<Rightarrow> int \<Rightarrow> string" where
  \<comment> \<open>the decimal \<open>s \<times> 10\<^sup>j\<close>, \<open>z\<close> being the number of zeros that end \<open>s\<close>\<close>
  "digits_layout s z j =
     layout (digits_of (s div 10 ^ z))
       (int (length (digits_of (s div 10 ^ z))) + int z + j)"

definition decimal_string :: "int \<times> int \<Rightarrow> string" where
  "decimal_string sj = digits_layout (nat (fst sj)) (trailing_zeros (nat (fst sj))) (snd sj)"

definition positive_to_string :: "rat \<Rightarrow> string" where
  "positive_to_string x = decimal_string (shortest 17 1 x)"

definition String_js :: "jsnum \<Rightarrow> string" where
  "String_js x =
     (case x of
        NaN \<Rightarrow> ''NaN''
      | PosInf \<Rightarrow> ''Infinity''
      | NegInf \<Rightarrow> ''-Infinity''
      | NegZero \<Rightarrow> ''0''
      | Fin r \<Rightarrow>
          if r = 0 then ''0''
          else if r < 0 then CHR ''-'' # positive_to_string (- r)
          else positive_to_string r)"

subsection \<open>\<^verbatim>\<open>new Date(string)\<close>\<close>

text \<open>
  \<^verbatim>\<open>new Date(val)\<close> on a string parses it. ECMAScript fixes the meaning of the strings of
  its date-time format: the date \<^verbatim>\<open>YYYY\<close>, \<^verbatim>\<open>YYYY-MM\<close> or \<^verbatim>\<open>YYYY-MM-DD\<close>, alone or followed
  by \<^verbatim>\<open>T\<close> and the time \<^verbatim>\<open>HH:mm\<close>, \<^verbatim>\<open>HH:mm:ss\<close> or \<^verbatim>\<open>HH:mm:ss.sss\<close>, and then by nothing, by
  \<^verbatim>\<open>Z\<close> or by an offset \<^verbatim>\<open>+HH:mm\<close> or \<^verbatim>\<open>-HH:mm\<close>. A date alone is a time of UTC; a date and
  time without \<^verbatim>\<open>Z\<close> or offset is a local time. Two things are left to the host, the
  engine and the machine it runs on: the offset of the local time, and what a string
  outside the format means, if anything (engines read many such strings, each its own).
  The model takes both as parameters:

    \<^item> \<open>local_offset h t\<close> is the offset of the local time from UTC, in milliseconds, at
      the local time value \<open>t\<close>;

    \<^item> \<open>other_formats h s\<close> is the time value the host gives a string it reads by its own
      rules, and \<open>None\<close> (NaN) for a string it does not recognise.

  \<open>date_time_format\<close> reads the strings of the format with a four-digit year, a day that
  exists in its month and a time of day in range. Every other string is left to
  \<open>other_formats\<close>, also a date such as \<^verbatim>\<open>2024-02-30\<close>, which engines treat differently.
  \<^verbatim>\<open>new Date\<close> clips the time value to the range of \<open>8.64 \<times> 10\<^sup>1\<^sup>5\<close> milliseconds around the
  epoch.
\<close>

record host =
  local_offset :: "int \<Rightarrow> int"
  other_formats :: "string \<Rightarrow> int option"

definition take_number :: "nat \<Rightarrow> string \<Rightarrow> (int \<times> string) option" where
  \<comment> \<open>the number written by the first \<open>n\<close> characters, which are digits, and the rest\<close>
  "take_number n s =
     (if n \<le> length s \<and> list_all (is_digit 10) (take n s)
      then Some (int (digits_value 10 (take n s)), drop n s)
      else None)"

definition expect :: "char \<Rightarrow> string \<Rightarrow> string option" where
  \<comment> \<open>what follows the character \<open>c\<close>, when the string starts with it\<close>
  "expect c s = (case s of [] \<Rightarrow> None | x # r \<Rightarrow> if x = c then Some r else None)"

definition days_in_month :: "int \<Rightarrow> int \<Rightarrow> int" where
  "days_in_month y m =
     (if m = 2 then (if y mod 4 = 0 \<and> (y mod 100 \<noteq> 0 \<or> y mod 400 = 0) then 29 else 28)
      else if m = 4 \<or> m = 6 \<or> m = 9 \<or> m = 11 then 30 else 31)"

definition days_from_civil :: "int \<Rightarrow> int \<Rightarrow> int \<Rightarrow> int" where
  \<comment> \<open>the day number of a date of the proleptic Gregorian calendar, day 0 being 1970-01-01\<close>
  "days_from_civil y m d =
     (let y' = (if m \<le> 2 then y - 1 else y);
          era = y' div 400;
          yoe = y' - era * 400;
          doy = (153 * (if 2 < m then m - 3 else m + 9) + 2) div 5 + d - 1;
          doe = yoe * 365 + yoe div 4 - yoe div 100 + doy
      in era * 146097 + doe - 719468)"

definition date_fields :: "string \<Rightarrow> ((int \<times> int \<times> int) \<times> string) option" where
  \<comment> \<open>\<^verbatim>\<open>YYYY\<close>, \<^verbatim>\<open>YYYY-MM\<close> or \<^verbatim>\<open>YYYY-MM-DD\<close> at the start of the string, and the rest\<close>
  "date_fields s =
     (case take_number 4 s of
        None \<Rightarrow> None
      | Some (y, r) \<Rightarrow>
          (case expect CHR ''-'' r of
             None \<Rightarrow> Some ((y, 1, 1), r)
           | Some r1 \<Rightarrow>
               (case take_number 2 r1 of
                  None \<Rightarrow> None
                | Some (m, r2) \<Rightarrow>
                    (case expect CHR ''-'' r2 of
                       None \<Rightarrow> Some ((y, m, 1), r2)
                     | Some r3 \<Rightarrow>
                         (case take_number 2 r3 of
                            None \<Rightarrow> None
                          | Some (d, r4) \<Rightarrow> Some ((y, m, d), r4))))))"

definition seconds_fields :: "string \<Rightarrow> ((int \<times> int) \<times> string) option" where
  \<comment> \<open>nothing, \<^verbatim>\<open>:ss\<close> or \<^verbatim>\<open>:ss.sss\<close> at the start of the string, and the rest\<close>
  "seconds_fields s =
     (case expect CHR '':'' s of
        None \<Rightarrow> Some ((0, 0), s)
      | Some r \<Rightarrow>
          (case take_number 2 r of
             None \<Rightarrow> None
           | Some (sec, r1) \<Rightarrow>
               (case expect CHR ''.'' r1 of
                  None \<Rightarrow> Some ((sec, 0), r1)
                | Some r2 \<Rightarrow>
                    (case take_number 3 r2 of
                       None \<Rightarrow> None
                     | Some (ms, r3) \<Rightarrow> Some ((sec, ms), r3)))))"

definition time_fields :: "string \<Rightarrow> ((int \<times> int \<times> int \<times> int) \<times> string) option" where
  \<comment> \<open>\<^verbatim>\<open>HH:mm\<close>, \<^verbatim>\<open>HH:mm:ss\<close> or \<^verbatim>\<open>HH:mm:ss.sss\<close> at the start of the string, and the rest\<close>
  "time_fields s =
     (case take_number 2 s of
        None \<Rightarrow> None
      | Some (h, r) \<Rightarrow>
          (case expect CHR '':'' r of
             None \<Rightarrow> None
           | Some r1 \<Rightarrow>
               (case take_number 2 r1 of
                  None \<Rightarrow> None
                | Some (mi, r2) \<Rightarrow>
                    (case seconds_fields r2 of
                       None \<Rightarrow> None
                     | Some ((sec, ms), r3) \<Rightarrow> Some ((h, mi, sec, ms), r3)))))"

definition offset_fields :: "string \<Rightarrow> int option" where
  \<comment> \<open>\<^verbatim>\<open>HH:mm\<close> and nothing more, in minutes\<close>
  "offset_fields s =
     (case take_number 2 s of
        None \<Rightarrow> None
      | Some (h, r) \<Rightarrow>
          (case expect CHR '':'' r of
             None \<Rightarrow> None
           | Some r1 \<Rightarrow>
               (case take_number 2 r1 of
                  None \<Rightarrow> None
                | Some (mi, r2) \<Rightarrow>
                    if r2 = [] \<and> h \<le> 23 \<and> mi \<le> 59 then Some (h * 60 + mi) else None)))"

datatype zone = Local_time | UTC_offset int

definition zone_field :: "string \<Rightarrow> zone option" where
  \<comment> \<open>the end of a date-time: nothing, \<^verbatim>\<open>Z\<close>, or a sign and \<^verbatim>\<open>HH:mm\<close>; the offset in minutes\<close>
  "zone_field s =
     (case s of
        [] \<Rightarrow> Some Local_time
      | c # r \<Rightarrow>
          if c = CHR ''Z'' then (if r = [] then Some (UTC_offset 0) else None)
          else if c = CHR ''+'' then map_option UTC_offset (offset_fields r)
          else if c = CHR ''-'' then map_option (\<lambda>m. UTC_offset (- m)) (offset_fields r)
          else None)"

definition valid_date :: "int \<Rightarrow> int \<Rightarrow> int \<Rightarrow> bool" where
  "valid_date y m d = (1 \<le> m \<and> m \<le> 12 \<and> 1 \<le> d \<and> d \<le> days_in_month y m)"

definition valid_time :: "int \<Rightarrow> int \<Rightarrow> int \<Rightarrow> int \<Rightarrow> bool" where
  "valid_time h mi sec ms =
     (mi \<le> 59 \<and> sec \<le> 59 \<and> (h \<le> 23 \<or> h = 24 \<and> mi = 0 \<and> sec = 0 \<and> ms = 0))"

definition MakeTime :: "int \<Rightarrow> int \<Rightarrow> int \<Rightarrow> int \<Rightarrow> int" where
  "MakeTime h mi sec ms = ((h * 60 + mi) * 60 + sec) * 1000 + ms"

definition MakeDate :: "int \<Rightarrow> int \<Rightarrow> int" where
  "MakeDate day time = day * 86400000 + time"

definition to_UTC :: "host \<Rightarrow> zone \<Rightarrow> int \<Rightarrow> int" where
  "to_UTC h z t =
     (case z of Local_time \<Rightarrow> t - local_offset h t | UTC_offset m \<Rightarrow> t - m * 60000)"

definition date_time_format :: "host \<Rightarrow> string \<Rightarrow> int option" where
  "date_time_format h s =
     (case date_fields s of
        None \<Rightarrow> None
      | Some ((y, m, d), r) \<Rightarrow>
          if \<not> valid_date y m d then None
          else if r = [] then Some (MakeDate (days_from_civil y m d) 0)
          else
            (case expect CHR ''T'' r of
               None \<Rightarrow> None
             | Some r1 \<Rightarrow>
                 (case time_fields r1 of
                    None \<Rightarrow> None
                  | Some ((hh, mi, sec, ms), r2) \<Rightarrow>
                      if \<not> valid_time hh mi sec ms then None
                      else
                        (case zone_field r2 of
                           None \<Rightarrow> None
                         | Some z \<Rightarrow>
                             Some (to_UTC h z
                                    (MakeDate (days_from_civil y m d) (MakeTime hh mi sec ms)))))))"

definition Date_parse :: "host \<Rightarrow> string \<Rightarrow> int option" where
  "Date_parse h s =
     (case date_time_format h s of Some t \<Rightarrow> Some t | None \<Rightarrow> other_formats h s)"

definition TimeClip :: "int option \<Rightarrow> int option" where
  "TimeClip t =
     (case t of None \<Rightarrow> None | Some v \<Rightarrow> if 8640000000000000 < \<bar>v\<bar> then None else Some v)"

definition new_Date :: "host \<Rightarrow> string \<Rightarrow> jsval" where
  "new_Date h val = JDate (TimeClip (Date_parse h val))"

section \<open>The zod validators\<close>

text \<open>
  A zod schema is a value built from the library's combinators; \<^verbatim>\<open>safeParse\<close> runs it
  on an input and returns either the parsed data or the list of issues. The definitions
  follow the \<^verbatim>\<open>_parse\<close> methods of zod 3 in their synchronous form. The schemas of
  the module use \<^verbatim>\<open>z.string()\<close>, \<^verbatim>\<open>z.number()\<close>, \<^verbatim>\<open>z.boolean()\<close>, \<^verbatim>\<open>z.date()\<close>,
  \<^verbatim>\<open>z.array\<close>, \<^verbatim>\<open>.optional()\<close>, \<^verbatim>\<open>.nullable()\<close>, \<^verbatim>\<open>z.union\<close>, \<^verbatim>\<open>.transform\<close>,
  \<^verbatim>\<open>z.object\<close> and \<^verbatim>\<open>.omit\<close>. None of them carries a refinement, so a parse is
  either valid or aborted with issues.
\<close>

datatype zschema =
    ZString
  | ZNumber
  | ZBoolean
  | ZDate
  | ZArray zschema
  | ZOptional zschema
  | ZNullable zschema
  | ZUnion "zschema list"
  | ZEffects zschema "jsval \<Rightarrow> jsval"
  | ZObject "(string \<times> zschema) list"

datatype parsed_type =
  PString | PNan | PNumber | PBoolean | PDate | PUndefined | PNull | PArray | PObject

fun getParsedType :: "jsval \<Rightarrow> parsed_type" where
  "getParsedType JUndefined = PUndefined"
| "getParsedType JNull = PNull"
| "getParsedType (JBool b) = PBoolean"
| "getParsedType (JNum n) = (if n = NaN then PNan else PNumber)"
| "getParsedType (JStr s) = PString"
| "getParsedType (JDate t) = PDate"
| "getParsedType (JArray xs) = PArray"
| "getParsedType (JObject kvs) = PObject"

datatype path_element = Key string | Index nat

type_synonym path = "path_element list"

text \<open>
  An issue names the path of the value it is about. \<open>Invalid_type p expected received\<close>
  is zod's \<^verbatim>\<open>invalid_type\<close>; \<open>Invalid_union\<close> carries the issues of every alternative.
\<close>

datatype issue =
    Invalid_type path parsed_type parsed_type
  | Invalid_date path
  | Invalid_union path "issue list list"

fun issue_path :: "issue \<Rightarrow> path" where
  "issue_path (Invalid_type p e r) = p"
| "issue_path (Invalid_date p) = p"
| "issue_path (Invalid_union p es) = p"

fun type_name :: "parsed_type \<Rightarrow> string" where
  "type_name PString = ''string''"
| "type_name PNan = ''nan''"
| "type_name PNumber = ''number''"
| "type_name PBoolean = ''boolean''"
| "type_name PDate = ''date''"
| "type_name PUndefined = ''undefined''"
| "type_name PNull = ''null''"
| "type_name PArray = ''array''"
| "type_name PObject = ''object''"

fun message :: "issue \<Rightarrow> string" where
  \<comment> \<open>the library's default error map\<close>
  "message (Invalid_type p e r) =
     (if r = PUndefined then ''Required''
      else ''Expected '' @ type_name e @ '', received '' @ type_name r)"
| "message (Invalid_date p) = ''Invalid date''"
| "message (Invalid_union p es) = ''Invalid input''"

type_synonym parse_result = "issue list + jsval"

definition expect_type :: "parsed_type \<Rightarrow> path \<Rightarrow> jsval \<Rightarrow> parse_result" where
  "expect_type t p v =
     (if getParsedType v = t then Inr v else Inl [Invalid_type p t (getParsedType v)])"

fun first_valid :: "parse_result list \<Rightarrow> issue list list + jsval" where
  \<comment> \<open>\<^verbatim>\<open>ZodUnion\<close>: the first alternative that is valid, or the issues of all of them\<close>
  "first_valid [] = Inl []"
| "first_valid (Inr v # rs) = Inr v"
| "first_valid (Inl e # rs) =
     (case first_valid rs of Inr v \<Rightarrow> Inr v | Inl es \<Rightarrow> Inl (e # es))"

fun mergeArray :: "parse_result list \<Rightarrow> issue list + jsval list" where
  \<comment> \<open>every element is parsed; the array is valid when all of them are\<close>
  "mergeArray [] = Inr []"
| "mergeArray (r # rs) =
     (case (r, mergeArray rs) of
        (Inl e, Inl es) \<Rightarrow> Inl (e @ es)
      | (Inl e, Inr vs) \<Rightarrow> Inl e
      | (Inr v, Inl es) \<Rightarrow> Inl es
      | (Inr v, Inr vs) \<Rightarrow> Inr (v # vs))"

fun mergeObject :: "(string \<times> bool \<times> parse_result) list \<Rightarrow> issue list + (string \<times> jsval) list" where
  \<comment> \<open>\<^verbatim>\<open>mergeObjectSync\<close> on the pairs \<open>(key, alwaysSet, value)\<close>: every field has been
      parsed and has reported its issues; a key is written when its value is not
      \<^verbatim>\<open>undefined\<close> or the key is in the input\<close>
  "mergeObject [] = Inr []"
| "mergeObject ((k, alwaysSet, r) # rs) =
     (case (r, mergeObject rs) of
        (Inl e, Inl es) \<Rightarrow> Inl (e @ es)
      | (Inl e, Inr out) \<Rightarrow> Inl e
      | (Inr v, Inl es) \<Rightarrow> Inl es
      | (Inr v, Inr out) \<Rightarrow> Inr (if v \<noteq> JUndefined \<or> alwaysSet then (k, v) # out else out))"

fun parse :: "zschema \<Rightarrow> path \<Rightarrow> jsval \<Rightarrow> parse_result" where
  "parse ZString p v = expect_type PString p v"
| "parse ZNumber p v = expect_type PNumber p v"
| "parse ZBoolean p v = expect_type PBoolean p v"
| "parse ZDate p v =
     (case v of
        JDate t \<Rightarrow> (if t = None then Inl [Invalid_date p] else Inr v)
      | _ \<Rightarrow> Inl [Invalid_type p PDate (getParsedType v)])"
| "parse (ZArray s) p v =
     (case v of
        JArray xs \<Rightarrow>
          (case mergeArray (map (\<lambda>(i, x). parse s (p @ [Index i]) x) (enumerate 0 xs)) of
             Inl es \<Rightarrow> Inl es
           | Inr ys \<Rightarrow> Inr (JArray ys))
      | _ \<Rightarrow> Inl [Invalid_type p PArray (getParsedType v)])"
| "parse (ZOptional s) p v = (if v = JUndefined then Inr JUndefined else parse s p v)"
| "parse (ZNullable s) p v = (if v = JNull then Inr JNull else parse s p v)"
| "parse (ZUnion options) p v =
     (case first_valid (map (\<lambda>s. parse s p v) options) of
        Inr x \<Rightarrow> Inr x
      | Inl unionErrors \<Rightarrow> Inl [Invalid_union p unionErrors])"
| "parse (ZEffects s transform) p v =
     (case parse s p v of Inl es \<Rightarrow> Inl es | Inr x \<Rightarrow> Inr (transform x))"
| "parse (ZObject shape) p v =
     (case v of
        JObject kvs \<Rightarrow>
          (case mergeObject
                  (map (\<lambda>(k, s). (k, has_prop kvs k, parse s (p @ [Key k]) (get_prop kvs k)))
                     shape) of
             Inl es \<Rightarrow> Inl es
           | Inr out \<Rightarrow> Inr (JObject out))
      | _ \<Rightarrow> Inl [Invalid_type p PObject (getParsedType v)])"

definition safeParse :: "zschema \<Rightarrow> jsval \<Rightarrow> parse_result" where
  "safeParse s v = parse s [] v"

fun omit :: "string list \<Rightarrow> zschema \<Rightarrow> zschema" where
  \<comment> \<open>\<^verbatim>\<open>.omit({k: true, ...})\<close>, a method of object schemas only\<close>
  "omit ks (ZObject shape) = ZObject (filter (\<lambda>(k, s). k \<notin> set ks) shape)"
| "omit ks s = s"

fun shape_of :: "zschema \<Rightarrow> (string \<times> zschema) list" where
  "shape_of (ZObject shape) = shape"
| "shape_of s = []"

section \<open>The drizzle tables\<close>

text \<open>
  \<^verbatim>\<open>pgTable\<close> declares a table as an object of column builders. A column has a type, may
  be \<^verbatim>\<open>notNull\<close>, and may have a default: a value (\<^verbatim>\<open>.default(v)\<close>), the time of the
  insertion (\<^verbatim>\<open>.defaultNow()\<close>) or the next number of a sequence (\<^verbatim>\<open>serial\<close>).
\<close>

datatype column_type =
  PgText | PgNumeric | PgInteger | PgSerial | PgBoolean | PgTimestamp | PgArray column_type

datatype column_default = NoDefault | DefaultValue jsval | DefaultNow | DefaultSerial

record column =
  name :: string
  columnType :: column_type
  notNull :: bool
  isUnique :: bool
  primary :: bool
  default_value :: column_default

type_synonym table = "(string \<times> column) list"

definition new_column :: "column_type \<Rightarrow> string \<Rightarrow> column" where
  "new_column t n =
     \<lparr>name = n, columnType = t, notNull = False, isUnique = False, primary = False,
      default_value = NoDefault\<rparr>"

definition text_col :: "string \<Rightarrow> column" where
  "text_col n = new_column PgText n"

definition numeric :: "string \<Rightarrow> column" where
  "numeric n = new_column PgNumeric n"

definition integer_col :: "string \<Rightarrow> column" where
  "integer_col n = new_column PgInteger n"

definition boolean :: "string \<Rightarrow> column" where
  "boolean n = new_column PgBoolean n"

definition timestamp :: "string \<Rightarrow> column" where
  "timestamp n = new_column PgTimestamp n"

definition serial :: "string \<Rightarrow> column" where
  \<comment> \<open>a serial column is not null and has its sequence as default\<close>
  "serial n = (new_column PgSerial n)\<lparr>notNull := True, default_value := DefaultSerial\<rparr>"

definition not_null :: "column \<Rightarrow> column" where
  "not_null c = c\<lparr>notNull := True\<rparr>"

definition unique :: "column \<Rightarrow> column" where
  "unique c = c\<lparr>isUnique := True\<rparr>"

definition primaryKey :: "column \<Rightarrow> column" where
  "primaryKey c = c\<lparr>primary := True, notNull := True\<rparr>"

definition array :: "column \<Rightarrow> column" where
  "array c = c\<lparr>columnType := PgArray (columnType c)\<rparr>"

definition default_to :: "jsval \<Rightarrow> column \<Rightarrow> column" where
  "default_to v c = c\<lparr>default_value := DefaultValue v\<rparr>"

definition defaultNow :: "column \<Rightarrow> column" where
  "defaultNow c = c\<lparr>default_value := DefaultNow\<rparr>"

definition hasDefault :: "column \<Rightarrow> bool" where
  "hasDefault c = (default_value c \<noteq> NoDefault)"

subsection \<open>\<^verbatim>\<open>createInsertSchema\<close>\<close>

text \<open>
  drizzle-zod derives the insert schema of a table: every column is mapped to the zod
  type of the values it stores (text and numeric columns store strings, integer and
  serial columns numbers, timestamps dates); the entries of the second argument replace
  the schemas of the columns they name, an entry being a schema or a function of the
  object of the schemas derived so far (the module writes \<^verbatim>\<open>(schema) => schema.username\<close>);
  then a column that may be null becomes nullable and optional, and a column that is
  not null but has a default becomes optional. The second argument names columns of the
  table only, which the type of \<^verbatim>\<open>createInsertSchema\<close> requires; \<open>entry\<close> gives a key that
  is no column the schema that accepts nothing.
\<close>

fun mapColumnToSchema :: "column_type \<Rightarrow> zschema" where
  "mapColumnToSchema PgText = ZString"
| "mapColumnToSchema PgNumeric = ZString"
| "mapColumnToSchema PgInteger = ZNumber"
| "mapColumnToSchema PgSerial = ZNumber"
| "mapColumnToSchema PgBoolean = ZBoolean"
| "mapColumnToSchema PgTimestamp = ZDate"
| "mapColumnToSchema (PgArray t) = ZArray (mapColumnToSchema t)"

datatype refinement =
    Replace zschema
  | Refine "(string \<times> zschema) list \<Rightarrow> zschema"

definition entry :: "(string \<times> zschema) list \<Rightarrow> string \<Rightarrow> zschema" where
  \<comment> \<open>\<^verbatim>\<open>schema.key\<close>, for a key of the table\<close>
  "entry entries k = (case map_of entries k of Some s \<Rightarrow> s | None \<Rightarrow> ZUnion [])"

definition refine_entry ::
  "(string \<times> zschema) list \<Rightarrow> (string \<times> refinement) list \<Rightarrow> string \<times> zschema \<Rightarrow> string \<times> zschema"
where
  "refine_entry entries refine e =
     (case map_of refine (fst e) of
        None \<Rightarrow> e
      | Some (Replace s) \<Rightarrow> (fst e, s)
      | Some (Refine f) \<Rightarrow> (fst e, f entries))"

definition insert_modifiers :: "column \<Rightarrow> zschema \<Rightarrow> zschema" where
  "insert_modifiers c s =
     (if \<not> notNull c then ZOptional (ZNullable s)
      else if hasDefault c then ZOptional s
      else s)"

definition createInsertSchema :: "table \<Rightarrow> (string \<times> refinement) list \<Rightarrow> zschema" where
  "createInsertSchema tbl refine =
     (let entries = map (\<lambda>(k, c). (k, mapColumnToSchema (columnType c))) tbl;
          refined = map (refine_entry entries refine) entries
      in ZObject (map (\<lambda>((k, c), (k', s)). (k, insert_modifiers c s)) (zip tbl refined)))"

section \<open>The schema module\<close>

subsection \<open>Tables\<close>

definition users :: table where
  "users =
     [(''id'', primaryKey (serial ''id'')),
      (''username'', unique (not_null (text_col ''username''))),
      (''password'', not_null (text_col ''password'')),
      (''email'', unique (not_null (text_col ''email''))),
      (''fullName'', not_null (text_col ''full_name'')),
      (''savedProperties'',
         default_to (JArray []) (not_null (array (integer_col ''saved_properties'')))),
      (''createdAt'', defaultNow (timestamp ''created_at''))]"

definition properties :: table where
  "properties =
     [(''id'', primaryKey (serial ''id'')),
      (''title'', not_null (text_col ''title'')),
      (''description'', not_null (text_col ''description'')),
      (''price'', not_null (numeric ''price'')),
      (''address'', not_null (text_col ''address'')),
      (''city'', not_null (text_col ''city'')),
      (''state'', not_null (text_col ''state'')),
      (''zipCode'', not_null (text_col ''zip_code'')),
      (''lat'', not_null (numeric ''lat'')),
      (''lng'', not_null (numeric ''lng'')),
      (''bedrooms'', not_null (integer_col ''bedrooms'')),
      (''bathrooms'', not_null (integer_col ''bathrooms'')),
      (''squareFeet'', not_null (integer_col ''square_feet'')),
      (''yearBuilt'', integer_col ''year_built''),
      (''propertyType'', not_null (text_col ''property_type'')),
      (''listingType'', not_null (text_col ''listing_type'')),
      (''imageUrl'', not_null (text_col ''image_url'')),
      (''userId'', not_null (integer_col ''user_id'')),
      (''featured'', default_to (JBool False) (boolean ''featured'')),
      (''status'', default_to (JStr ''available'') (text_col ''status'')),
      (''avgRating'', default_to (JStr ''0'') (numeric ''avg_rating'')),
      (''ratingCount'', default_to (JNum (Fin 0)) (integer_col ''rating_count'')),
      (''createdAt'', defaultNow (timestamp ''created_at''))]"

definition appointments :: table where
  "appointments =
     [(''id'', primaryKey (serial ''id'')),
      (''propertyId'', not_null (integer_col ''property_id'')),
      (''userId'', not_null (integer_col ''user_id'')),
      (''date'', not_null (timestamp ''date'')),
      (''message'', text_col ''message''),
      (''status'', default_to (JStr ''pending'') (text_col ''status'')),
      (''createdAt'', defaultNow (timestamp ''created_at''))]"

definition agents :: table where
  "agents =
     [(''id'', primaryKey (serial ''id'')),
      (''name'', not_null (text_col ''name'')),
      (''specialization'', not_null (text_col ''specialization'')),
      (''rating'', not_null (numeric ''rating'')),
      (''propertiesSold'', not_null (integer_col ''properties_sold'')),
      (''imageUrl'', not_null (text_col ''image_url''))]"

subsection \<open>Insert schemas\<close>

text \<open>
  The arrow functions of the transforms. Each is applied to the output of the schema it
  is attached to, a number or a string; on other values, which it never receives, it
  is the identity.
\<close>

definition number_to_string :: "jsval \<Rightarrow> jsval" where
  \<comment> \<open>\<^verbatim>\<open>val => String(val)\<close>\<close>
  "number_to_string val = (case val of JNum n \<Rightarrow> JStr (String_js n) | _ \<Rightarrow> val)"

definition string_to_number :: "jsval \<Rightarrow> jsval" where
  \<comment> \<open>\<^verbatim>\<open>val => Number(val)\<close>\<close>
  "string_to_number val = (case val of JStr s \<Rightarrow> JNum (Number_js s) | _ \<Rightarrow> val)"

definition string_to_year :: "jsval \<Rightarrow> jsval" where
  \<comment> \<open>\<^verbatim>\<open>val => val ? Number(val) : undefined\<close>; a string is truthy when it is not empty\<close>
  "string_to_year val =
     (case val of
        JStr s \<Rightarrow> if s \<noteq> [] then JNum (Number_js s) else JUndefined
      | _ \<Rightarrow> val)"

definition string_to_date :: "host \<Rightarrow> jsval \<Rightarrow> jsval" where
  \<comment> \<open>\<^verbatim>\<open>val => new Date(val)\<close>, on the host \<open>h\<close>\<close>
  "string_to_date h val = (case val of JStr s \<Rightarrow> new_Date h s | _ \<Rightarrow> val)"

definition insertUserSchema :: zschema where
  "insertUserSchema =
     createInsertSchema users
       [(''username'', Refine (\<lambda>schema. entry schema ''username'')),
        (''password'', Refine (\<lambda>schema. entry schema ''password'')),
        (''email'', Refine (\<lambda>schema. entry schema ''email'')),
        (''fullName'', Refine (\<lambda>schema. entry schema ''fullName''))]"

definition insertPropertySchema :: zschema where
  "insertPropertySchema =
     omit [''id'', ''createdAt'']
       (createInsertSchema properties
          [(''price'', Replace (ZUnion [ZString, ZEffects ZNumber number_to_string])),
           (''lat'', Replace (ZUnion [ZString, ZEffects ZNumber number_to_string])),
           (''lng'', Replace (ZUnion [ZString, ZEffects ZNumber number_to_string])),
           (''bedrooms'', Replace (ZUnion [ZNumber, ZEffects ZString string_to_number])),
           (''bathrooms'', Replace (ZUnion [ZNumber, ZEffects ZString string_to_number])),
           (''squareFeet'', Replace (ZUnion [ZNumber, ZEffects ZString string_to_number])),
           (''yearBuilt'',
              Replace (ZUnion [ZOptional ZNumber,
                               ZOptional (ZEffects ZString string_to_year)]))])"

definition insertAppointmentSchema :: "host \<Rightarrow> zschema" where
  "insertAppointmentSchema h =
     omit [''id'', ''createdAt'']
       (createInsertSchema appointments
          [(''date'', Replace (ZUnion [ZDate, ZEffects ZString (string_to_date h)]))])"

definition insertAgentSchema :: zschema where
  "insertAgentSchema = omit [''id''] (createInsertSchema agents [])"

subsection \<open>The property filter\<close>

definition propertyFilterSchema :: zschema where
  "propertyFilterSchema =
     ZObject
       [(''city'', ZOptional ZString),
        (''minPrice'', ZOptional ZString),
        (''maxPrice'', ZOptional ZString),
        (''minBeds'', ZOptional ZString),
        (''minBaths'', ZOptional ZString),
        (''propertyType'', ZOptional ZString),
        (''listingType'', ZOptional ZString),
        (''minSqft'', ZOptional ZString),
        (''maxSqft'', ZOptional ZString),
        (''minYear'', ZOptional ZString),
        (''maxYear'', ZOptional ZString)]"

section \<open>Creation of an entity\<close>

text \<open>
  Modelled from the spec: the creation step of the persistence layer, whose code is not
  among the sources of the module. The specification says of it that a not-null column
  rejects a missing value, that a declared default applies when the field is absent at
  creation time, and that \<^verbatim>\<open>id\<close> and \<^verbatim>\<open>createdAt\<close> are assigned by the persistence layer.
  \<open>next_id\<close> and \<open>now\<close> are the number and the time it assigns.
\<close>

definition stored :: "column \<Rightarrow> int \<Rightarrow> int \<Rightarrow> jsval \<Rightarrow> jsval" where
  \<comment> \<open>the value a column gets: the one given, or else its default\<close>
  "stored c next_id now v =
     (if v \<noteq> JUndefined then v
      else case default_value c of
             DefaultValue d \<Rightarrow> d
           | DefaultNow \<Rightarrow> JDate (Some now)
           | DefaultSerial \<Rightarrow> JNum (Fin (of_int next_id))
           | NoDefault \<Rightarrow> JNull)"

definition create_entity ::
  "table \<Rightarrow> int \<Rightarrow> int \<Rightarrow> (string \<times> jsval) list \<Rightarrow> string list + (string \<times> jsval) list"
where
  \<comment> \<open>the created row, or the not-null columns that have no value\<close>
  "create_entity tbl next_id now vals =
     (let rejected =
            map fst
              (filter (\<lambda>(k, c). notNull c \<and> stored c next_id now (get_prop vals k) = JNull) tbl)
      in if rejected \<noteq> [] then Inl rejected
         else Inr (map (\<lambda>(k, c). (k, stored c next_id now (get_prop vals k))) tbl))"

section \<open>Vocabulary of the statements\<close>

text \<open>
  The results of the fields of an object, as \<open>parse\<close> hands them to \<open>mergeObject\<close>; the
  properties that \<open>mergeObject\<close> writes and the issues it reports.
\<close>

definition field_results ::
  "(string \<times> zschema) list \<Rightarrow> path \<Rightarrow> (string \<times> jsval) list \<Rightarrow> (string \<times> bool \<times> parse_result) list"
where
  "field_results shape p kvs =
     map (\<lambda>(k, s). (k, has_prop kvs k, parse s (p @ [Key k]) (get_prop kvs k))) shape"

fun written :: "(string \<times> bool \<times> parse_result) list \<Rightarrow> (string \<times> jsval) list" where
  "written [] = []"
| "written ((k, a, Inr v) # ps) =
     (if v \<noteq> JUndefined \<or> a then (k, v) # written ps else written ps)"
| "written ((k, a, Inl e) # ps) = written ps"

fun reported :: "(string \<times> bool \<times> parse_result) list \<Rightarrow> issue list" where
  "reported [] = []"
| "reported ((k, a, Inr v) # ps) = reported ps"
| "reported ((k, a, Inl e) # ps) = e @ reported ps"

definition all_valid :: "(string \<times> bool \<times> parse_result) list \<Rightarrow> bool" where
  "all_valid ps = list_all (\<lambda>(k, a, r). \<not> isl r) ps"

text \<open>
  \<open>others_valid S f kvs\<close>: every field of the object schema \<open>S\<close> other than \<open>f\<close> is valid
  in the payload \<open>kvs\<close>. It isolates what the schema does with the field \<open>f\<close>.
\<close>

definition others_valid :: "zschema \<Rightarrow> string \<Rightarrow> (string \<times> jsval) list \<Rightarrow> bool" where
  "others_valid S f kvs =
     list_all (\<lambda>(k, s). k = f \<or> \<not> isl (parse s [Key k] (get_prop kvs k))) (shape_of S)"

fun put_prop :: "string \<Rightarrow> jsval \<Rightarrow> (string \<times> jsval) list \<Rightarrow> (string \<times> jsval) list" where
  \<comment> \<open>the object with the property \<open>k\<close> set to \<open>v\<close>\<close>
  "put_prop k v [] = [(k, v)]"
| "put_prop k v ((k', v') # kvs) =
     (if k' = k then (k, v) # kvs else (k', v') # put_prop k v kvs)"

definition del_prop :: "string \<Rightarrow> (string \<times> jsval) list \<Rightarrow> (string \<times> jsval) list" where
  \<comment> \<open>the object without the property \<open>k\<close>\<close>
  "del_prop k kvs = filter (\<lambda>(k', v). k' \<noteq> k) kvs"

text \<open>
  An issue reports a missing value when it is an \<^verbatim>\<open>invalid_type\<close> that received
  \<^verbatim>\<open>undefined\<close> (the library's message for it is \<^verbatim>\<open>Required\<close>), or an \<^verbatim>\<open>invalid_union\<close>
  every alternative of which reports just that.
\<close>

fun reports_missing :: "issue \<Rightarrow> bool" where
  "reports_missing (Invalid_type p e r) = (r = PUndefined)"
| "reports_missing (Invalid_date p) = False"
| "reports_missing (Invalid_union p es) =
     (es \<noteq> [] \<and> list_all (\<lambda>e. e \<noteq> [] \<and> list_all reports_missing e) es)"

text \<open>
  The schemas of the required fields of a property: the plain types, and the unions of
  the fields that take a number or a string.
\<close>

definition required_schemas :: "zschema set" where
  "required_schemas =
     {ZString, ZNumber,
      ZUnion [ZString, ZEffects ZNumber number_to_string],
      ZUnion [ZNumber, ZEffects ZString string_to_number]}"

text \<open>
  The canonical values of a column: a string for a text or numeric column, a number
  that is not NaN for an integer column, a boolean, a valid date, an array of canonical
  values; and \<^verbatim>\<open>null\<close> for a column that may be null. A payload is in the canonical shape
  of a table, some columns omitted, when every property is a column that is not omitted
  and holds a canonical value, and every column that is required is there.
\<close>

fun canonical_value :: "column_type \<Rightarrow> jsval \<Rightarrow> bool" where
  "canonical_value PgText v = (getParsedType v = PString)"
| "canonical_value PgNumeric v = (getParsedType v = PString)"
| "canonical_value PgInteger v = (getParsedType v = PNumber)"
| "canonical_value PgSerial v = (getParsedType v = PNumber)"
| "canonical_value PgBoolean v = (getParsedType v = PBoolean)"
| "canonical_value PgTimestamp v = (case v of JDate t \<Rightarrow> t \<noteq> None | _ \<Rightarrow> False)"
| "canonical_value (PgArray t) v =
     (case v of JArray xs \<Rightarrow> list_all (canonical_value t) xs | _ \<Rightarrow> False)"

definition canonical_property :: "table \<Rightarrow> string list \<Rightarrow> string \<times> jsval \<Rightarrow> bool" where
  "canonical_property tbl omitted kv =
     (case map_of tbl (fst kv) of
        None \<Rightarrow> False
      | Some c \<Rightarrow>
          fst kv \<notin> set omitted \<and>
          (canonical_value (columnType c) (snd kv) \<or> snd kv = JNull \<and> \<not> notNull c))"

definition canonical_row :: "table \<Rightarrow> string list \<Rightarrow> (string \<times> jsval) list \<Rightarrow> bool" where
  "canonical_row tbl omitted kvs =
     (distinct (map fst kvs) \<and>
      list_all (canonical_property tbl omitted) kvs \<and>
      list_all (\<lambda>(k, c). k \<in> set omitted \<or> has_prop kvs k \<or> hasDefault c \<or> \<not> notNull c) tbl)"

text \<open>
  What a column admits in a canonical payload: a canonical value, \<^verbatim>\<open>null\<close> when the column
  may be null, or nothing when the column is not required.
\<close>

definition column_ok :: "column \<Rightarrow> jsval \<Rightarrow> bool" where
  "column_ok c v =
     (canonical_value (columnType c) v \<or> v = JNull \<and> \<not> notNull c
      \<or> v = JUndefined \<and> (hasDefault c \<or> \<not> notNull c))"

text \<open>
  The schema \<^verbatim>\<open>createInsertSchema\<close> has for a column before it makes it optional or
  nullable: the one derived from the column, or the one the refinement puts in its place.
\<close>

definition refined_schema ::
  "table \<Rightarrow> (string \<times> refinement) list \<Rightarrow> string \<Rightarrow> column \<Rightarrow> zschema"
where
  "refined_schema tbl refine k c =
     snd (refine_entry (map (\<lambda>(k, c). (k, mapColumnToSchema (columnType c))) tbl) refine
            (k, mapColumnToSchema (columnType c)))"

subsection \<open>Strings of the conversions\<close>

text \<open>
  The strings on which the statements fix the conversions: one that begins with a letter;
  the decimal digits \<open>digits_of k\<close> of a natural number; and the timestamp
  \<^verbatim>\<open>YYYY-MM-DDTHH:mm:ss.sssZ\<close> of a date and a time of day, the form in which
  \<^verbatim>\<open>JSON.stringify\<close> writes a date. \<open>utc_host\<close> is a host in the UTC time zone that
  recognises no string outside the date-time format.
\<close>

definition is_letter :: "char \<Rightarrow> bool" where
  "is_letter c =
     (let n = (of_char c :: nat) in 65 \<le> n \<and> n \<le> 90 \<or> 97 \<le> n \<and> n \<le> 122)"

definition pad :: "nat \<Rightarrow> nat \<Rightarrow> string" where
  \<comment> \<open>the digits of \<open>v\<close>, with zeros before them up to the width \<open>n\<close>\<close>
  "pad n v = replicate (n - length (digits_of v)) CHR ''0'' @ digits_of v"

definition iso_string :: "nat \<Rightarrow> nat \<Rightarrow> nat \<Rightarrow> nat \<Rightarrow> nat \<Rightarrow> nat \<Rightarrow> nat \<Rightarrow> string" where
  "iso_string y m d hh mi sec ms =
     pad 4 y @ CHR ''-'' # pad 2 m @ CHR ''-'' # pad 2 d @ CHR ''T'' # pad 2 hh @ CHR '':'' #
     pad 2 mi @ CHR '':'' # pad 2 sec @ CHR ''.'' # pad 3 ms @ ''Z''"

definition utc_host :: host where
  "utc_host = \<lparr>local_offset = (\<lambda>t. 0), other_formats = (\<lambda>s. None)\<rparr>"

subsection \<open>Example payloads\<close>

definition example_user :: "(string \<times> jsval) list" where
  "example_user =
     [(''username'', JStr ''ann''),
      (''password'', JStr ''secret''),
      (''email'', JStr ''ann@example.com''),
      (''fullName'', JStr ''Ann Lee'')]"

definition example_property :: "(string \<times> jsval) list" where
  "example_property =
     [(''title'', JStr ''Loft''),
      (''description'', JStr ''Sunny''),
      (''price'', JStr ''250000.50''),
      (''address'', JStr ''1 Main St''),
      (''city'', JStr ''Austin''),
      (''state'', JStr ''TX''),
      (''zipCode'', JStr ''78701''),
      (''lat'', JStr ''30.27''),
      (''lng'', JStr ''-97.74''),
      (''bedrooms'', JNum (Fin 3)),
      (''bathrooms'', JNum (Fin 2)),
      (''squareFeet'', JNum (Fin 1200)),
      (''propertyType'', JStr ''condo''),
      (''listingType'', JStr ''buy''),
      (''imageUrl'', JStr ''loft.png''),
      (''userId'', JNum (Fin 1))]"

definition example_appointment :: "(string \<times> jsval) list" where
  "example_appointment =
     [(''propertyId'', JNum (Fin 1)),
      (''userId'', JNum (Fin 2)),
      (''date'', JDate (Some 1714557600000))]"

section \<open>Evaluation\<close>

text \<open>
  Equations that evaluate the recursive functions on numerals, and the definitions that
  evaluate each conversion on a literal.
\<close>

lemma floor_rat_numeral:
  "\<lfloor>numeral a / numeral b :: rat\<rfloor> = numeral a div numeral b"
  "\<lfloor>1 / numeral b :: rat\<rfloor> = 1 div numeral b"
  "\<lfloor>- (numeral a / numeral b) :: rat\<rfloor> = - numeral a div numeral b"
  "\<lfloor>- (1 / numeral b) :: rat\<rfloor> = - 1 div numeral b"
  using floor_divide_of_int_eq [of "numeral a" "numeral b", where ?'a = rat]
        floor_divide_of_int_eq [of 1 "numeral b", where ?'a = rat]
        floor_divide_of_int_eq [of "- numeral a" "numeral b", where ?'a = rat]
        floor_divide_of_int_eq [of "- 1" "numeral b", where ?'a = rat]
  by simp_all

lemma bit_length_numeral:
  "bit_length (numeral k) = Suc (bit_length (numeral k div 2))"
  "bit_length 0 = 0"
  "bit_length (Suc 0) = Suc 0"
  by (simp_all add: bit_length.simps [of "numeral k"] bit_length.simps [of 0]
        bit_length.simps [of "Suc 0"])

lemma digits_of_numeral:
  "digits_of (numeral k) =
     (if numeral k < (10::nat) then [''0123456789'' ! numeral k]
      else digits_of (numeral k div 10) @ [''0123456789'' ! (numeral k mod 10)])"
  "digits_of 0 = ''0''"
  "digits_of (Suc 0) = ''1''"
  by (simp_all add: digits_of.simps [of "numeral k"] digits_of.simps [of 0]
        digits_of.simps [of "Suc 0"])

lemma trailing_zeros_numeral:
  "trailing_zeros (numeral k) =
     (if numeral k mod (10::nat) \<noteq> 0 then 0 else Suc (trailing_zeros (numeral k div 10)))"
  "trailing_zeros 0 = 0"
  "trailing_zeros (Suc 0) = 0"
  by (simp_all add: trailing_zeros.simps [of "numeral k"] trailing_zeros.simps [of 0]
        trailing_zeros.simps [of "Suc 0"])

lemma replicate_numeral_eval: "replicate (numeral k) x = x # replicate (pred_numeral k) x"
  by (simp add: numeral_eq_Suc)

lemma shortest_numeral:
  "shortest (numeral k) p x =
     (case candidate x p of Some r \<Rightarrow> r | None \<Rightarrow> shortest (pred_numeral k) (Suc p) x)"
  by (simp add: numeral_eq_Suc)

lemmas to_number_defs =
  to_number_def finite_or_infinite_def round_magnitude_def round_at_def round_half_even_def
  nearest_even_def binade_def pow2_def bit_length_numeral floor_rat_numeral

lemmas Number_js_defs =
  Number_js_def trimString_def isStrWhiteSpaceChar_def radix_literal_def
  unsigned_decimal_def is_digit_def digit_in_def exponent_part_def negate_def
  digits_value_def scale10_def to_number_defs

lemmas String_js_defs =
  String_js_def positive_to_string_def decimal_string_def digits_layout_def layout_def
  exponent_string_def shortest_numeral candidate_def candidate_with_def candidate_at_def
  pick_nearer_def decimal_exponent_def scale10_def to_number_defs trailing_zeros_numeral
  digits_of_numeral replicate_numeral_eval

lemmas Date_parse_defs =
  Date_parse_def date_time_format_def date_fields_def time_fields_def seconds_fields_def
  zone_field_def offset_fields_def take_number_def expect_def valid_date_def valid_time_def
  MakeTime_def MakeDate_def to_UTC_def days_in_month_def days_from_civil_def TimeClip_def
  is_digit_def digit_in_def digits_value_def


lemmas column_defs =
  new_column_def text_col_def numeric_def integer_col_def boolean_def timestamp_def
  serial_def not_null_def unique_def primaryKey_def array_def default_to_def
  defaultNow_def hasDefault_def

lemmas schema_defs = createInsertSchema_def refine_entry_def insert_modifiers_def entry_def

lemma user_shape:
  "insertUserSchema =
     ZObject
       [(''id'', ZOptional ZNumber),
        (''username'', ZString),
        (''password'', ZString),
        (''email'', ZString),
        (''fullName'', ZString),
        (''savedProperties'', ZOptional (ZArray ZNumber)),
        (''createdAt'', ZOptional (ZNullable ZDate))]"
  by (simp add: insertUserSchema_def users_def column_defs schema_defs)

lemma property_shape:
  "insertPropertySchema =
     ZObject
       [(''title'', ZString),
        (''description'', ZString),
        (''price'', ZUnion [ZString, ZEffects ZNumber number_to_string]),
        (''address'', ZString),
        (''city'', ZString),
        (''state'', ZString),
        (''zipCode'', ZString),
        (''lat'', ZUnion [ZString, ZEffects ZNumber number_to_string]),
        (''lng'', ZUnion [ZString, ZEffects ZNumber number_to_string]),
        (''bedrooms'', ZUnion [ZNumber, ZEffects ZString string_to_number]),
        (''bathrooms'', ZUnion [ZNumber, ZEffects ZString string_to_number]),
        (''squareFeet'', ZUnion [ZNumber, ZEffects ZString string_to_number]),
        (''yearBuilt'',
           ZOptional (ZNullable (ZUnion [ZOptional ZNumber,
                                         ZOptional (ZEffects ZString string_to_year)]))),
        (''propertyType'', ZString),
        (''listingType'', ZString),
        (''imageUrl'', ZString),
        (''userId'', ZNumber),
        (''featured'', ZOptional (ZNullable ZBoolean)),
        (''status'', ZOptional (ZNullable ZString)),
        (''avgRating'', ZOptional (ZNullable ZString)),
        (''ratingCount'', ZOptional (ZNullable ZNumber))]"
  by (simp add: insertPropertySchema_def properties_def column_defs schema_defs)

lemma appointment_shape:
  "insertAppointmentSchema h =
     ZObject
       [(''propertyId'', ZNumber),
        (''userId'', ZNumber),
        (''date'', ZUnion [ZDate, ZEffects ZString (string_to_date h)]),
        (''message'', ZOptional (ZNullable ZString)),
        (''status'', ZOptional (ZNullable ZString))]"
  by (simp add: insertAppointmentSchema_def appointments_def column_defs schema_defs)

section \<open>The conversions on digits and letters\<close>

subsection \<open>Digits\<close>

lemma digit_char:
  assumes "n < 10"
  shows "digit_in 10 (''0123456789'' ! n) = Some n"
proof -
  from assms have "n \<in> {0, 1, 2, 3, 4, 5, 6, 7, 8, 9}" by auto
  then show ?thesis by (auto simp: digit_in_def)
qed

lemma digits_value_snoc:
  "digits_value r (ds @ [c]) =
     r * digits_value r ds + (case digit_in r c of None \<Rightarrow> 0 | Some v \<Rightarrow> v)"
  by (simp add: digits_value_def)

lemma digits_value_digits_of: "digits_value 10 (digits_of k) = k"
proof (induction k rule: digits_of.induct)
  case (1 n)
  show ?case
  proof (cases "n < 10")
    case True
    then show ?thesis
      by (simp add: digits_of.simps [of n] digits_value_def digit_char)
  next
    case False
    then have "digits_value 10 (digits_of (n div 10)) = n div 10" using 1 by simp
    moreover have "digit_in 10 (''0123456789'' ! (n mod 10)) = Some (n mod 10)"
      by (rule digit_char) simp
    ultimately show ?thesis
      using False by (simp add: digits_of.simps [of n] digits_value_snoc)
  qed
qed

lemma digits_of_digits: "list_all (is_digit 10) (digits_of k)"
proof (induction k rule: digits_of.induct)
  case (1 n)
  have d: "is_digit 10 (''0123456789'' ! m)" if "m < 10" for m
    using digit_char [OF that] by (simp add: is_digit_def)
  show ?case
  proof (cases "n < 10")
    case True
    then show ?thesis by (simp add: digits_of.simps [of n] d)
  next
    case False
    then show ?thesis using 1 by (simp add: digits_of.simps [of n] d)
  qed
qed

lemma digits_of_nonempty: "digits_of k \<noteq> []"
  by (simp add: digits_of.simps [of k])

lemma digit_not_space: "is_digit 10 c \<Longrightarrow> \<not> isStrWhiteSpaceChar c"
  by (auto simp: is_digit_def digit_in_def isStrWhiteSpaceChar_def Let_def split: if_splits)

lemma trimString_unchanged:
  assumes "s \<noteq> []" and "\<not> isStrWhiteSpaceChar (hd s)" and "\<not> isStrWhiteSpaceChar (last s)"
  shows "trimString s = s"
proof -
  have a: "dropWhile isStrWhiteSpaceChar s = s"
    using assms(1,2) by (cases s) auto
  obtain xs where r: "rev s = last s # xs"
    using assms(1) by (cases s rule: rev_cases) auto
  have b: "dropWhile isStrWhiteSpaceChar (rev s) = rev s"
    unfolding r using assms(3) by simp
  show ?thesis by (simp add: trimString_def a b)
qed

lemma trimString_digits: "trimString (digits_of k) = digits_of k"
proof -
  have "is_digit 10 (hd (digits_of k))" "is_digit 10 (last (digits_of k))"
    using digits_of_digits [of k] digits_of_nonempty [of k]
    by (auto simp: list_all_iff)
  then show ?thesis
    using digits_of_nonempty digit_not_space by (intro trimString_unchanged) auto
qed

subsection \<open>Exact integers\<close>

lemma bit_length_less: "k < 2 ^ bit_length k"
proof (induction k rule: bit_length.induct)
  case (1 n)
  show ?case
  proof (cases "n = 0")
    case True
    then show ?thesis by (simp add: bit_length.simps [of n])
  next
    case False
    then have "n div 2 < 2 ^ bit_length (n div 2)" using 1 by simp
    then have "n < 2 * 2 ^ bit_length (n div 2)" by linarith
    then show ?thesis using False by (simp add: bit_length.simps [of n])
  qed
qed

lemma bit_length_bound: "k < 2 ^ n \<Longrightarrow> bit_length k \<le> n"
proof (induction k arbitrary: n rule: bit_length.induct)
  case (1 k)
  show ?case
  proof (cases "k = 0")
    case True
    then show ?thesis by (simp add: bit_length_numeral)
  next
    case False
    then obtain m where n: "n = Suc m" using 1(2) by (cases n) auto
    then have "k div 2 < 2 ^ m" using 1(2) by auto
    then have "bit_length (k div 2) \<le> m" using 1(1) False by simp
    then show ?thesis using False n by (simp add: bit_length.simps [of k])
  qed
qed

lemma bit_length_ge: "0 < k \<Longrightarrow> 2 ^ (bit_length k - 1) \<le> k"
proof (induction k rule: bit_length.induct)
  case (1 n)
  show ?case
  proof (cases "n div 2 = 0")
    case True
    then have "bit_length n = 1"
      using 1(2) by (simp add: bit_length.simps [of n] bit_length.simps [of 0])
    then show ?thesis using 1(2) by simp
  next
    case False
    then have ih: "2 ^ (bit_length (n div 2) - 1) \<le> n div 2" using 1 by simp
    have pos: "0 < bit_length (n div 2)"
      using False by (simp add: bit_length.simps [of "n div 2"])
    have "bit_length n - 1 = Suc (bit_length (n div 2) - 1)"
      using 1(2) pos by (simp add: bit_length.simps [of n])
    then show ?thesis using ih by simp
  qed
qed

lemma round_half_even_int: "round_half_even (of_int i) = i"
  by (simp add: round_half_even_def nearest_even_def)

lemma to_number_exact:
  assumes "k < 2 ^ 53"
  shows "to_number (of_nat k) = Fin (of_nat k)"
proof (cases "k = 0")
  case True
  then show ?thesis by (simp add: to_number_def)
next
  case False
  define b where "b = bit_length k"
  have b53: "b \<le> 53" unfolding b_def using assms by (rule bit_length_bound)
  have b1: "1 \<le> b" unfolding b_def using False by (simp add: bit_length.simps [of k])
  have bin: "binade (of_nat k) = int b - 1"
    using False by (simp add: binade_def b_def)
  define d where "d = 53 - b"
  have q: "max (binade (of_nat k) - 52) (- 1074) = - int d"
    using b53 b1 by (simp add: bin d_def)
  have p: "pow2 (- int d) = 1 / 2 ^ d"
    by (cases "d = 0") (simp_all add: pow2_def)
  have "rat_of_nat k / pow2 (- int d) = of_int (int k * 2 ^ d)"
    by (simp add: p)
  then have "round_half_even (rat_of_nat k / pow2 (- int d)) = int k * 2 ^ d"
    using round_half_even_int by metis
  then have r: "round_magnitude (of_nat k) = of_nat k"
    by (simp add: round_magnitude_def round_at_def q p)
  have "(of_nat k :: rat) < 2 ^ 53" using assms by (metis of_nat_less_numeral_power_cancel_iff)
  also have "\<dots> \<le> 2 ^ 1024" by simp
  finally have "\<not> (2 ^ 1024 \<le> (of_nat k :: rat))" by simp
  then show ?thesis using False by (simp add: to_number_def finite_or_infinite_def r)
qed

subsection \<open>The number of a string of digits\<close>

lemma radix_literal_digits: "list_all (is_digit 10) s \<Longrightarrow> radix_literal s = None"
proof (cases s)
  case Nil
  then show ?thesis by (simp add: radix_literal_def)
next
  case (Cons z r)
  assume a: "list_all (is_digit 10) s"
  show ?thesis
  proof (cases r)
    case Nil
    then show ?thesis using Cons by (simp add: radix_literal_def)
  next
    case (Cons x ds)
    then have "is_digit 10 x" using a \<open>s = z # r\<close> by simp
    then have "x \<notin> {CHR ''x'', CHR ''X'', CHR ''o'', CHR ''O'', CHR ''b'', CHR ''B''}"
      by (auto simp: is_digit_def digit_in_def)
    then show ?thesis using Cons \<open>s = z # r\<close> by (simp add: radix_literal_def)
  qed
qed

lemma unsigned_decimal_digits:
  assumes "list_all (is_digit 10) s" and "s \<noteq> []"
  shows "unsigned_decimal s = to_number (of_nat (digits_value 10 s))"
proof -
  have t: "takeWhile (is_digit 10) s = s" "dropWhile (is_digit 10) s = []"
    using assms(1) by (simp_all add: list_all_iff)
  have "\<not> is_digit 10 CHR ''I''" by (simp add: is_digit_def digit_in_def)
  then have "s \<noteq> ''Infinity''" using assms(1) by auto
  then show ?thesis
    using assms(2) by (simp add: unsigned_decimal_def t exponent_part_def scale10_def)
qed

lemma Number_js_digits: "Number_js (digits_of k) = to_number (of_nat k)"
proof -
  let ?s = "digits_of k"
  have d: "list_all (is_digit 10) ?s" by (rule digits_of_digits)
  have ne: "?s \<noteq> []" by (rule digits_of_nonempty)
  then have "is_digit 10 (hd ?s)" using d by (cases ?s) auto
  then have "hd ?s \<noteq> CHR ''-''" "hd ?s \<noteq> CHR ''+''"
    by (auto simp: is_digit_def digit_in_def)
  then show ?thesis
    using ne
    by (simp add: Number_js_def trimString_digits radix_literal_digits [OF d]
          unsigned_decimal_digits [OF d ne] digits_value_digits_of)
qed

lemma Number_js_natural: "k < 2 ^ 53 \<Longrightarrow> Number_js (digits_of k) = Fin (of_nat k)"
  by (simp add: Number_js_digits to_number_exact)

subsection \<open>The number of a string that begins with a letter\<close>




subsection \<open>The digits of a natural number\<close>

lemma digits_of_bounds:
  "0 < k \<Longrightarrow> 10 ^ (length (digits_of k) - 1) \<le> k \<and> k < 10 ^ length (digits_of k)"
proof (induction k rule: digits_of.induct)
  case (1 n)
  show ?case
  proof (cases "n < 10")
    case True
    then show ?thesis using 1(2) by (simp add: digits_of.simps [of n])
  next
    case False
    then have pos: "0 < n div 10" by simp
    obtain m where m: "length (digits_of (n div 10)) = Suc m"
      using digits_of_nonempty [of "n div 10"] by (cases "digits_of (n div 10)") auto
    have ih: "10 ^ m \<le> n div 10" "n div 10 < 10 * 10 ^ m"
      using 1(1) [OF False pos] by (simp_all add: m)
    have len: "length (digits_of n) = Suc (Suc m)"
      using False by (simp add: digits_of.simps [of n] m)
    have n: "n = 10 * (n div 10) + n mod 10" "n mod 10 < 10" by simp_all
    have "10 * 10 ^ m \<le> n" using ih(1) n by linarith
    moreover have "n < 10 * (10 * 10 ^ m)" using ih(2) n by linarith
    ultimately show ?thesis by (simp add: len)
  qed
qed

lemma digits_of_times_10: "0 < n \<Longrightarrow> digits_of (n * 10) = digits_of n @ ''0''"
  by (simp add: digits_of.simps [of "n * 10"])

lemma digits_of_shift: "0 < m \<Longrightarrow> digits_of (m * 10 ^ z) = digits_of m @ replicate z CHR ''0''"
proof (induction z)
  case 0
  show ?case by simp
next
  case (Suc z)
  have "digits_of (m * 10 ^ Suc z) = digits_of ((m * 10 ^ z) * 10)"
    by (simp add: mult.commute mult.left_commute)
  also have "\<dots> = digits_of (m * 10 ^ z) @ ''0''"
    using Suc.prems by (intro digits_of_times_10) simp
  also have "\<dots> = digits_of m @ replicate (Suc z) CHR ''0''"
    using Suc by (simp add: replicate_append_same)
  finally show ?case .
qed

lemma trailing_zeros_dvd: "0 < k \<Longrightarrow> 10 ^ trailing_zeros k dvd k"
proof (induction k rule: trailing_zeros.induct)
  case (1 n)
  show ?case
  proof (cases "n mod 10 = 0")
    case False
    then show ?thesis by (simp add: trailing_zeros.simps [of n])
  next
    case True
    then have "0 < n div 10" using 1(2) by (metis div_greater_zero_iff dvd_imp_le mod_0_imp_dvd zero_less_numeral)
    then have "10 ^ trailing_zeros (n div 10) dvd n div 10" using 1 True by simp
    then have "10 * 10 ^ trailing_zeros (n div 10) dvd 10 * (n div 10)"
      by (rule mult_dvd_mono [OF dvd_refl])
    moreover have "10 * (n div 10) = n" using True by auto
    ultimately show ?thesis using True 1(2) by (simp add: trailing_zeros.simps [of n])
  qed
qed

lemma trailing_zeros_maximal: "0 < k \<Longrightarrow> 10 ^ j dvd k \<Longrightarrow> j \<le> trailing_zeros k"
proof (induction k arbitrary: j rule: trailing_zeros.induct)
  case (1 n)
  show ?case
  proof (cases j)
    case 0
    then show ?thesis by simp
  next
    case (Suc i)
    then have d: "10 * 10 ^ i dvd n" using 1(3) by simp
    then have m: "n mod 10 = 0" by (metis dvd_mult_left mod_0_imp_dvd dvd_imp_mod_0)
    then have n: "n = 10 * (n div 10)" by auto
    have pos: "0 < n div 10" using 1(2) n by linarith
    have "10 * 10 ^ i dvd 10 * (n div 10)" using d n by simp
    then have "10 ^ i dvd n div 10" by simp
    then have "i \<le> trailing_zeros (n div 10)" using 1(1) m 1(2) pos by simp
    then show ?thesis using Suc m 1(2) by (simp add: trailing_zeros.simps [of n])
  qed
qed

lemma trailing_zeros_stripped:
  assumes "0 < k"
  shows "trailing_zeros (k div 10 ^ trailing_zeros k) = 0"
proof -
  let ?z = "trailing_zeros k"
  let ?s = "k div 10 ^ ?z"
  have k: "k = ?s * 10 ^ ?z" using trailing_zeros_dvd [OF assms] by simp
  have "?s mod 10 \<noteq> 0"
  proof
    assume "?s mod 10 = 0"
    then have "10 dvd ?s" by auto
    then have "10 * 10 ^ ?z dvd ?s * 10 ^ ?z" by (rule mult_dvd_mono) simp
    then have "10 ^ Suc ?z dvd k" using k by simp
    then have "Suc ?z \<le> ?z" using assms by (rule trailing_zeros_maximal [rotated])
    then show False by simp
  qed
  then show ?thesis by (simp add: trailing_zeros.simps [of ?s])
qed

subsection \<open>The string of an integer\<close>

lemma round_half_even_ge: "\<lfloor>t\<rfloor> \<le> round_half_even t"
  by (simp add: round_half_even_def nearest_even_def)

lemma round_magnitude_large:
  assumes big: "(2::nat) ^ 53 \<le> b"
  shows "(2::rat) ^ 53 \<le> round_magnitude (of_nat b)"
proof -
  let ?r = "of_nat b :: rat"
  let ?n = "bit_length b"
  have pos: "0 < b" using big by (cases "b = 0") simp_all
  have "(2::nat) ^ 53 < 2 ^ ?n" using big bit_length_less [of b] by linarith
  then have n: "53 < ?n" by (simp only: power_strict_increasing_iff [of 2])
  define q where "q = ?n - 53"
  have nq: "?n - 1 = 52 + q" using n by (simp add: q_def)
  have one: "1 \<le> ?r" using pos by simp
  have "binade ?r = int ?n - 1" using one by (simp add: binade_def)
  then have m: "max (binade ?r - 52) (- 1074) = int q" using n by (simp add: q_def)
  have rm: "round_magnitude ?r = of_int (round_half_even (?r / 2 ^ q)) * 2 ^ q"
    by (simp add: round_magnitude_def m round_at_def pow2_def)
  have "(2::nat) ^ 52 * 2 ^ q \<le> b" using bit_length_ge [OF pos] by (simp only: nq power_add)
  then have "(of_nat ((2::nat) ^ 52 * 2 ^ q) :: rat) \<le> ?r" by (simp only: of_nat_le_iff)
  then have "(2::rat) ^ 52 * 2 ^ q \<le> ?r" by simp
  then have "(2::rat) ^ 52 \<le> ?r / 2 ^ q" by (simp add: pos_le_divide_eq)
  then have "of_int (2 ^ 52) \<le> ?r / 2 ^ q" by simp
  then have "(2::int) ^ 52 \<le> \<lfloor>?r / 2 ^ q\<rfloor>" by (simp only: le_floor_iff)
  then have "(2::int) ^ 52 \<le> round_half_even (?r / 2 ^ q)"
    using round_half_even_ge [of "?r / 2 ^ q"] by linarith
  then have "(of_int (2 ^ 52) :: rat) \<le> of_int (round_half_even (?r / 2 ^ q))"
    by (simp only: of_int_le_iff)
  then have a: "(2::rat) ^ 52 \<le> of_int (round_half_even (?r / 2 ^ q))" by simp
  have q: "0 < q" using n by (simp add: q_def)
  then have "(2::rat) ^ 1 \<le> 2 ^ q" by (intro power_increasing) simp_all
  then have b: "(2::rat) \<le> 2 ^ q" by simp
  have "(2::rat) ^ 52 * 2 \<le> of_int (round_half_even (?r / 2 ^ q)) * 2 ^ q"
    using a b by (intro mult_mono) simp_all
  then show ?thesis by (simp add: rm)
qed

lemma to_number_above:
  assumes k: "k < 2 ^ 53" and b: "k < b"
  shows "to_number (of_nat b) \<noteq> Fin (of_nat k)"
proof (cases "b < 2 ^ 53")
  case True
  then show ?thesis using b by (simp add: to_number_exact)
next
  case False
  then have "(2::rat) ^ 53 \<le> round_magnitude (of_nat b)"
    by (intro round_magnitude_large) simp
  moreover have "(of_nat k :: rat) < of_nat ((2::nat) ^ 53)" using k by (simp only: of_nat_less_iff)
  then have "(of_nat k :: rat) < 2 ^ 53" by simp
  ultimately have "round_magnitude (of_nat b) \<noteq> of_nat k" by linarith
  moreover have "0 < b" using b by simp
  ultimately show ?thesis by (simp add: to_number_def finite_or_infinite_def)
qed

lemma decimal_exponent_natural:
  "0 < k \<Longrightarrow> decimal_exponent (of_nat k) = int (length (digits_of k))"
  by (simp add: decimal_exponent_def)

lemma candidate_with_natural:
  assumes pos: "0 < k" and k: "k < 2 ^ 53"
  shows "candidate_with (of_nat k) (int j)
           = (if 10 ^ j dvd k then Some (int (k div 10 ^ j), int j) else None)"
proof -
  let ?lo = "k div 10 ^ j"
  have "scale10 (of_nat k) (- int j) = of_nat k / of_nat (10 ^ j)"
    by (cases "j = 0") (simp_all add: scale10_def)
  then have lo: "\<lfloor>scale10 (of_nat k) (- int j)\<rfloor> = int ?lo"
    by (simp only: floor_divide_of_nat_eq)
  have s: "scale10 (of_int (int i)) (int j) = of_nat (i * 10 ^ j)" for i
    by (simp add: scale10_def)
  have le: "?lo * 10 ^ j \<le> k" by simp
  then have ex: "to_number (of_nat (?lo * 10 ^ j)) = Fin (of_nat (?lo * 10 ^ j))"
    using k by (intro to_number_exact) linarith
  have eq: "(?lo * 10 ^ j = k) = (10 ^ j dvd k)"
    by (metis dvd_div_mult_self dvd_triv_right)
  have ok_lo: "to_number (scale10 (of_int (int ?lo)) (int j)) = Fin (of_nat k)
                      \<longleftrightarrow> 10 ^ j dvd k"
    by (simp only: s ex jsnum.inject of_nat_eq_iff eq)
  have "k mod 10 ^ j < 10 ^ j" by simp
  moreover have "k = ?lo * 10 ^ j + k mod 10 ^ j" by (rule div_mult_mod_eq [symmetric])
  ultimately have "k < ?lo * 10 ^ j + 10 ^ j" by linarith
  then have "k < (?lo + 1) * 10 ^ j" by (simp only: add_mult_distrib mult_1)
  then have hi: "to_number (of_nat ((?lo + 1) * 10 ^ j)) \<noteq> Fin (of_nat k)"
    using k by (intro to_number_above)
  have i: "int ?lo + 1 = int (?lo + 1)" by simp
  have ok_hi: "to_number (scale10 (of_int (int ?lo + 1)) (int j)) \<noteq> Fin (of_nat k)"
    unfolding i s by (rule hi)
  show ?thesis
    unfolding candidate_with_def lo candidate_at_def pick_nearer_def
    using ok_lo ok_hi by simp
qed

lemma shortest_natural:
  assumes pos: "0 < k" and k: "k < 2 ^ 53"
    and lo: "p + trailing_zeros k \<le> length (digits_of k)"
    and hi: "length (digits_of k) < p + trailing_zeros k + fuel"
  shows "shortest fuel p (of_nat k) = (int (k div 10 ^ trailing_zeros k), int (trailing_zeros k))"
  using lo hi
proof (induction fuel arbitrary: p)
  case 0
  then show ?case by simp
next
  case (Suc fuel)
  let ?L = "length (digits_of k)"
  let ?z = "trailing_zeros k"
  have c: "candidate (of_nat k) p
             = (if 10 ^ (?L - p) dvd k then Some (int (k div 10 ^ (?L - p)), int (?L - p)) else None)"
  proof -
    have "int ?L - int p = int (?L - p)" using Suc.prems(1) by simp
    then show ?thesis
      by (simp only: candidate_def decimal_exponent_natural [OF pos]
            candidate_with_natural [OF pos k])
  qed
  show ?case
  proof (cases "10 ^ (?L - p) dvd k")
    case True
    then have "?L - p \<le> ?z" using pos by (intro trailing_zeros_maximal)
    then have "?L - p = ?z" using Suc.prems(1) by simp
    then show ?thesis using True by (simp add: c)
  next
    case False
    then have "?L - p \<noteq> ?z" using trailing_zeros_dvd [OF pos] by auto
    then have "Suc p + ?z \<le> ?L" "?L < Suc p + ?z + fuel" using Suc.prems by simp_all
    then have "shortest fuel (Suc p) (of_nat k) = (int (k div 10 ^ ?z), int ?z)"
      by (rule Suc.IH)
    then show ?thesis using False by (simp add: c)
  qed
qed

lemma digits_of_length:
  assumes pos: "0 < k" and k: "k < 2 ^ 53"
  shows "length (digits_of k) \<le> 16"
proof -
  have "(10::nat) ^ (length (digits_of k) - 1) \<le> k" using digits_of_bounds [OF pos] by simp
  also have "k < 10 ^ 16" using k by simp
  finally have "length (digits_of k) - 1 < 16" by (simp only: power_strict_increasing_iff [of 10])
  then show ?thesis by simp
qed

lemma trailing_zeros_less:
  assumes pos: "0 < k"
  shows "trailing_zeros k < length (digits_of k)"
proof -
  have "(10::nat) ^ trailing_zeros k \<le> k"
    using trailing_zeros_dvd [OF pos] pos by (intro dvd_imp_le)
  also have "k < 10 ^ length (digits_of k)" using digits_of_bounds [OF pos] by simp
  finally show ?thesis by (simp only: power_strict_increasing_iff [of 10])
qed

lemma positive_to_string_natural:
  assumes pos: "0 < k" and k: "k < 2 ^ 53"
  shows "positive_to_string (of_nat k) = digits_of k"
proof -
  let ?z = "trailing_zeros k"
  let ?s = "k div 10 ^ ?z"
  have ks: "?s * 10 ^ ?z = k" using trailing_zeros_dvd [OF pos] by simp
  have s: "0 < ?s" using ks pos by (cases "?s = 0") simp_all
  have ds: "digits_of k = digits_of ?s @ replicate ?z CHR ''0''"
    using digits_of_shift [OF s, of ?z] by (simp only: ks)
  have len: "length (digits_of k) = length (digits_of ?s) + ?z" by (simp add: ds)
  have "shortest 17 1 (of_nat k) = (int ?s, int ?z)"
    using trailing_zeros_less [OF pos] digits_of_length [OF pos k]
    by (intro shortest_natural [OF pos k]) simp_all
  then have "positive_to_string (of_nat k) = digits_layout ?s (trailing_zeros ?s) (int ?z)"
    by (simp add: positive_to_string_def decimal_string_def)
  also have "\<dots> = layout (digits_of ?s) (int (length (digits_of ?s)) + int ?z)"
    by (simp add: digits_layout_def trailing_zeros_stripped [OF pos])
  also have "\<dots> = digits_of ?s @ replicate ?z CHR ''0''"
    using digits_of_length [OF pos k] by (simp add: layout_def len)
  finally show ?thesis by (simp only: ds)
qed

lemma String_js_natural: "k < 2 ^ 53 \<Longrightarrow> String_js (Fin (of_nat k)) = digits_of k"
  by (cases "k = 0")
     (simp_all add: String_js_def positive_to_string_natural digits_of.simps [of 0])

lemma String_js_negative:
  "0 < k \<Longrightarrow> k < 2 ^ 53 \<Longrightarrow> String_js (Fin (- of_nat k)) = CHR ''-'' # digits_of k"
  by (simp add: String_js_def positive_to_string_natural)

lemma Number_js_String_js: "k < 2 ^ 53 \<Longrightarrow> Number_js (String_js (Fin (of_nat k))) = Fin (of_nat k)"
  by (simp add: String_js_natural Number_js_natural)

subsection \<open>Timestamps\<close>

lemma digits_value_zeros: "digits_value 10 (replicate z CHR ''0'' @ ds) = digits_value 10 ds"
proof -
  have "foldl (\<lambda>a c. 10 * a + (case digit_in 10 c of None \<Rightarrow> 0 | Some v \<Rightarrow> v)) 0
          (replicate z CHR ''0'') = 0"
    by (induction z) (simp_all add: digit_in_def)
  then show ?thesis by (simp add: digits_value_def)
qed

lemma digits_of_fits:
  assumes "v < 10 ^ n" and "0 < n"
  shows "length (digits_of v) \<le> n"
proof (cases "v = 0")
  case True
  then show ?thesis using assms(2) by (simp add: digits_of.simps [of 0])
next
  case False
  then have "(10::nat) ^ (length (digits_of v) - 1) \<le> v" using digits_of_bounds [of v] by simp
  then have "(10::nat) ^ (length (digits_of v) - 1) < 10 ^ n" using assms(1) by linarith
  then have "length (digits_of v) - 1 < n" by (simp only: power_strict_increasing_iff [of 10])
  then show ?thesis by simp
qed

lemma pad_length: "v < 10 ^ n \<Longrightarrow> 0 < n \<Longrightarrow> length (pad n v) = n"
  using digits_of_fits [of v n] by (simp add: pad_def)

lemma pad_digits: "list_all (is_digit 10) (pad n v)"
proof -
  have "is_digit 10 CHR ''0''" by (simp add: is_digit_def digit_in_def)
  then have "list_all (is_digit 10) (replicate z CHR ''0'')" for z
    by (induction z) simp_all
  then show ?thesis by (simp add: pad_def digits_of_digits)
qed

lemma pad_value: "digits_value 10 (pad n v) = v"
  by (simp add: pad_def digits_value_zeros digits_value_digits_of)

lemma take_number_pad:
  assumes "v < 10 ^ n" and "0 < n"
  shows "take_number n (pad n v @ r) = Some (int v, r)"
  using pad_length [OF assms] pad_digits [of n v] pad_value [of n v]
  by (simp add: take_number_def)

lemma expect_Cons: "expect c (c # r) = Some r"
  by (simp add: expect_def)

lemma expect_pad:
  assumes "v < 10 ^ n" and "0 < n" and "\<not> is_digit 10 c"
  shows "expect c (pad n v @ r) = None"
proof -
  have "pad n v \<noteq> []" using pad_length [OF assms(1,2)] assms(2) by auto
  then obtain x xs where x: "pad n v = x # xs" by (cases "pad n v") auto
  then have "is_digit 10 x" using pad_digits [of n v] by simp
  then have "x \<noteq> c" using assms(3) by auto
  then show ?thesis by (simp add: expect_def x)
qed

lemma date_fields_iso:
  assumes "y < 10 ^ 4" and "m < 10 ^ 2" and "d < 10 ^ 2"
  shows "date_fields (pad 4 y @ CHR ''-'' # pad 2 m @ CHR ''-'' # pad 2 d @ r)
           = Some ((int y, int m, int d), r)"
  by (simp add: date_fields_def take_number_pad [OF assms(1)] take_number_pad [OF assms(2)]
        take_number_pad [OF assms(3)] expect_Cons)

lemma time_fields_iso:
  assumes "hh < 10 ^ 2" and "mi < 10 ^ 2" and "sec < 10 ^ 2" and "ms < 10 ^ 3"
  shows "time_fields (pad 2 hh @ CHR '':'' # pad 2 mi @ CHR '':'' # pad 2 sec @ CHR ''.'' #
                        pad 3 ms @ r)
           = Some ((int hh, int mi, int sec, int ms), r)"
  by (simp add: time_fields_def seconds_fields_def take_number_pad [OF assms(1)]
        take_number_pad [OF assms(2)] take_number_pad [OF assms(3)]
        take_number_pad [OF assms(4)] expect_Cons)

lemma days_from_civil_bounds:
  assumes "0 \<le> y" and "y \<le> 9999" and "1 \<le> m" and "m \<le> 12" and "1 \<le> d" and "d \<le> 31"
  shows "- 865568 \<le> days_from_civil y m d" and "days_from_civil y m d \<le> 2932961"
proof -
  define y' where "y' = (if m \<le> 2 then y - 1 else y)"
  define era where "era = y' div 400"
  define yoe where "yoe = y' - era * 400"
  define mp where "mp = (if 2 < m then m - 3 else m + 9)"
  define doy where "doy = (153 * mp + 2) div 5 + d - 1"
  have dfc: "days_from_civil y m d
               = era * 146097 + (yoe * 365 + yoe div 4 - yoe div 100 + doy) - 719468"
    by (simp add: days_from_civil_def Let_def y'_def era_def yoe_def mp_def doy_def)
  have y': "- 1 \<le> y'" "y' \<le> 9999" using assms by (simp_all add: y'_def)
  have era: "- 1 \<le> era" "era \<le> 24" using y' by (simp_all add: era_def)
  have yoe: "0 \<le> yoe" "yoe \<le> 399" "yoe = y' mod 400"
    by (simp_all add: yoe_def era_def minus_div_mult_eq_mod)
  have mp: "0 \<le> mp" "mp \<le> 11" using assms by (simp_all add: mp_def)
  have doy: "0 \<le> doy" "doy \<le> 367" using mp assms by (simp_all add: doy_def)
  have q: "0 \<le> yoe div 4" "yoe div 4 \<le> 99" "0 \<le> yoe div 100" "yoe div 100 \<le> 3"
    using yoe(1,2) by linarith+
  show "- 865568 \<le> days_from_civil y m d"
    unfolding dfc using era(1) yoe(1) q doy by linarith
  show "days_from_civil y m d \<le> 2932961"
  proof -
    have "era * 146097 \<le> 24 * 146097" using era by simp
    moreover have "yoe * 365 \<le> 399 * 365" using yoe by simp
    moreover have "era = 24 \<longrightarrow> yoe \<le> 399" using yoe by simp
    ultimately have "days_from_civil y m d \<le> 24 * 146097 + (399 * 365 + 99 + 367) - 719468"
      unfolding dfc using q doy by linarith
    then show ?thesis by simp
  qed
qed

lemma Date_parse_iso:
  assumes y: "y \<le> 9999" and d: "valid_date (int y) (int m) (int d)"
    and t: "hh \<le> 23" "mi \<le> 59" "sec \<le> 59" "ms \<le> 999"
  shows "Date_parse h (iso_string y m d hh mi sec ms)
           = Some (MakeDate (days_from_civil (int y) (int m) (int d))
                     (MakeTime (int hh) (int mi) (int sec) (int ms)))"
proof -
  have m: "m \<le> 12" "d \<le> 31" using d by (auto simp: valid_date_def days_in_month_def split: if_splits)
  have df: "date_fields (pad 4 y @ CHR ''-'' # pad 2 m @ CHR ''-'' # pad 2 d @ r)
              = Some ((int y, int m, int d), r)" for r
    using y m by (intro date_fields_iso) simp_all
  have tf: "time_fields (pad 2 hh @ CHR '':'' # pad 2 mi @ CHR '':'' # pad 2 sec @ CHR ''.'' #
                           pad 3 ms @ r)
              = Some ((int hh, int mi, int sec, int ms), r)" for r
    using t by (intro time_fields_iso) simp_all
  have vt: "valid_time (int hh) (int mi) (int sec) (int ms)"
    using t by (simp add: valid_time_def)
  show ?thesis
    by (simp add: Date_parse_def date_time_format_def iso_string_def df tf d vt expect_Cons
          zone_field_def to_UTC_def)
qed

lemma TimeClip_iso:
  assumes y: "y \<le> 9999" and d: "valid_date (int y) (int m) (int d)"
    and t: "hh \<le> 23" "mi \<le> 59" "sec \<le> 59" "ms \<le> 999"
  shows "TimeClip (Date_parse h (iso_string y m d hh mi sec ms))
           = Some (MakeDate (days_from_civil (int y) (int m) (int d))
                     (MakeTime (int hh) (int mi) (int sec) (int ms)))"
proof -
  have m: "1 \<le> int m" "int m \<le> 12" "1 \<le> int d" "int d \<le> 31"
    using d by (auto simp: valid_date_def days_in_month_def split: if_splits)
  have b: "- 865568 \<le> days_from_civil (int y) (int m) (int d)"
    "days_from_civil (int y) (int m) (int d) \<le> 2932961"
    using days_from_civil_bounds [of "int y" "int m" "int d"] y m by simp_all
  have mt: "0 \<le> MakeTime (int hh) (int mi) (int sec) (int ms)"
    "MakeTime (int hh) (int mi) (int sec) (int ms) < 86400000"
    using t by (simp_all add: MakeTime_def)
  have "\<bar>MakeDate (days_from_civil (int y) (int m) (int d))
           (MakeTime (int hh) (int mi) (int sec) (int ms))\<bar> \<le> 8640000000000000"
    unfolding MakeDate_def using b mt by linarith
  then show ?thesis by (simp add: Date_parse_iso [OF assms] TimeClip_def)
qed

lemma date_fields_letter:
  assumes "is_letter c"
  shows "date_fields (c # r) = None"
proof -
  have "\<not> is_digit 10 c"
    using assms by (auto simp: is_letter_def is_digit_def digit_in_def Let_def)
  then show ?thesis by (simp add: date_fields_def take_number_def)
qed

lemma Date_parse_letter: "is_letter c \<Longrightarrow> Date_parse h (c # r) = other_formats h (c # r)"
  by (simp add: Date_parse_def date_time_format_def date_fields_letter)

section \<open>Parsing an object\<close>

lemma reported_valid: "all_valid ps \<Longrightarrow> reported ps = []"
  by (induction ps rule: reported.induct) (auto simp: all_valid_def)

lemma mergeObject_eq:
  "mergeObject ps = (if all_valid ps then Inr (written ps) else Inl (reported ps))"
proof (induction ps rule: written.induct)
  case 1
  show ?case by (simp add: all_valid_def)
next
  case (2 k a v ps)
  then show ?case by (simp add: all_valid_def)
next
  case (3 k a e ps)
  then show ?case using reported_valid [of ps] by (simp add: all_valid_def)
qed

lemma parse_object_eq:
  "parse (ZObject shape) p (JObject kvs) =
     (if all_valid (field_results shape p kvs)
      then Inr (JObject (written (field_results shape p kvs)))
      else Inl (reported (field_results shape p kvs)))"
  by (simp add: mergeObject_eq field_results_def)

lemma all_valid_fields:
  "all_valid (field_results shape p kvs) =
     list_all (\<lambda>(k, s). \<not> isl (parse s (p @ [Key k]) (get_prop kvs k))) shape"
  by (induction shape) (auto simp: all_valid_def field_results_def)

lemma written_keys: "fst ` set (written ps) \<subseteq> fst ` set ps"
  by (induction ps rule: written.induct) auto

lemma map_of_written:
  "distinct (map fst ps) \<Longrightarrow> (k, a, Inr v) \<in> set ps \<Longrightarrow>
     map_of (written ps) k = (if v \<noteq> JUndefined \<or> a then Some v else None)"
proof (induction ps rule: written.induct)
  case 1
  then show ?case by simp
next
  case (2 k' a' v' ps)
  have notin: "k' \<notin> fst ` set (written ps)"
    using 2 written_keys [of ps] by auto
  show ?case
  proof (cases "(k, a, Inr v) = (k', a', Inr v')")
    case True
    then show ?thesis using notin by (auto simp: map_of_eq_None_iff)
  next
    case False
    then have mem: "(k, a, Inr v) \<in> set ps" using 2 by auto
    then have "k \<noteq> k'" using 2 by force
    then show ?thesis using 2 mem by auto
  qed
next
  case (3 k' a' e ps)
  then show ?case by auto
qed

lemma get_prop_written:
  "distinct (map fst ps) \<Longrightarrow> (k, a, Inr v) \<in> set ps \<Longrightarrow> get_prop (written ps) k = v"
  by (auto simp: get_prop_def map_of_written)

lemma has_prop_written:
  "distinct (map fst ps) \<Longrightarrow> (k, a, Inr v) \<in> set ps \<Longrightarrow>
     has_prop (written ps) k = (v \<noteq> JUndefined \<or> a)"
  by (auto simp: has_prop_def map_of_written)

lemma field_results_mem:
  "(k, s) \<in> set shape \<Longrightarrow>
     (k, has_prop kvs k, parse s (p @ [Key k]) (get_prop kvs k))
       \<in> set (field_results shape p kvs)"
  by (force simp: field_results_def)

lemma field_results_keys: "map fst (field_results shape p kvs) = map fst shape"
  by (induction shape) (auto simp: field_results_def)

lemma reported_mem: "(k, a, Inl e) \<in> set ps \<Longrightarrow> set e \<subseteq> set (reported ps)"
  by (induction ps rule: reported.induct) auto

lemma field_valid:
  assumes others: "list_all (\<lambda>(k, s). k = f \<or> \<not> isl (parse s [Key k] (get_prop kvs k))) shape"
    and mem: "(f, s) \<in> set shape"
    and dist: "distinct (map fst shape)"
    and ok: "parse s [Key f] (get_prop kvs f) = Inr v"
  shows "\<exists>out. safeParse (ZObject shape) (JObject kvs) = Inr (JObject out)
           \<and> get_prop out f = v \<and> has_prop out f = (v \<noteq> JUndefined \<or> has_prop kvs f)"
proof -
  let ?ps = "field_results shape [] kvs"
  have allv: "all_valid ?ps"
    unfolding all_valid_fields list_all_iff
  proof
    fix x assume x: "x \<in> set shape"
    obtain k s' where xk: "x = (k, s')" by (cases x)
    show "case x of (k, s) \<Rightarrow> \<not> isl (parse s ([] @ [Key k]) (get_prop kvs k))"
    proof (cases "k = f")
      case True
      then have "s' = s" using mem x xk dist by (metis eq_key_imp_eq_value)
      then show ?thesis using ok xk True by simp
    next
      case False
      then show ?thesis using others x xk by (auto simp: list_all_iff)
    qed
  qed
  have m: "(f, has_prop kvs f, Inr v) \<in> set ?ps"
    using field_results_mem [OF mem, of kvs "[]"] ok by simp
  have d: "distinct (map fst ?ps)" using dist by (simp add: field_results_keys)
  show ?thesis
    using allv get_prop_written [OF d m] has_prop_written [OF d m]
    unfolding safeParse_def parse_object_eq by simp
qed

lemma field_invalid:
  assumes mem: "(f, s) \<in> set shape"
    and bad: "parse s [Key f] (get_prop kvs f) = Inl es"
  shows "\<exists>issues. safeParse (ZObject shape) (JObject kvs) = Inl issues \<and> set es \<subseteq> set issues"
proof -
  let ?ps = "field_results shape [] kvs"
  have m: "(f, has_prop kvs f, Inl es) \<in> set ?ps"
    using field_results_mem [OF mem, of kvs "[]"] bad by simp
  then have "\<not> all_valid ?ps" by (force simp: all_valid_def list_all_iff)
  then show ?thesis using reported_mem [OF m] unfolding safeParse_def parse_object_eq by simp
qed

lemma valid_field:
  assumes ok: "safeParse (ZObject shape) (JObject kvs) = Inr r"
    and mem: "(f, s) \<in> set shape"
    and dist: "distinct (map fst shape)"
  shows "\<exists>out. r = JObject out \<and> parse s [Key f] (get_prop kvs f) = Inr (get_prop out f)
           \<and> has_prop out f = (get_prop out f \<noteq> JUndefined \<or> has_prop kvs f)"
proof -
  let ?ps = "field_results shape [] kvs"
  have allv: "all_valid ?ps" and r: "r = JObject (written ?ps)"
    using ok unfolding safeParse_def parse_object_eq by (auto split: if_splits)
  have "\<not> isl (parse s [Key f] (get_prop kvs f))"
    using allv mem by (auto simp: all_valid_fields list_all_iff)
  then obtain v where v: "parse s [Key f] (get_prop kvs f) = Inr v"
    by (cases "parse s [Key f] (get_prop kvs f)") auto
  have m: "(f, has_prop kvs f, Inr v) \<in> set ?ps"
    using field_results_mem [OF mem, of kvs "[]"] v by simp
  have d: "distinct (map fst ?ps)" using dist by (simp add: field_results_keys)
  show ?thesis using r v get_prop_written [OF d m] has_prop_written [OF d m] by simp
qed

lemma result_keys:
  assumes "safeParse (ZObject shape) (JObject kvs) = Inr (JObject out)"
  shows "fst ` set out \<subseteq> fst ` set shape"
proof -
  have "out = written (field_results shape [] kvs)"
    using assms unfolding safeParse_def parse_object_eq by (auto split: if_splits)
  then show ?thesis
    using written_keys [of "field_results shape [] kvs"] field_results_keys [of shape "[]" kvs]
    by (metis set_map)
qed

lemma count_field:
  "parse (ZUnion [ZNumber, ZEffects ZString string_to_number]) p v =
     (case v of
        JNum n \<Rightarrow>
          if n = NaN
          then Inl [Invalid_union p [[Invalid_type p PNumber PNan], [Invalid_type p PString PNan]]]
          else Inr v
      | JStr s \<Rightarrow> Inr (JNum (Number_js s))
      | _ \<Rightarrow>
          Inl [Invalid_union p
                 [[Invalid_type p PNumber (getParsedType v)],
                  [Invalid_type p PString (getParsedType v)]]])"
  by (cases v) (simp_all add: expect_type_def string_to_number_def)

lemma decimal_field:
  "parse (ZUnion [ZString, ZEffects ZNumber number_to_string]) p v =
     (case v of
        JStr s \<Rightarrow> Inr v
      | JNum n \<Rightarrow>
          if n = NaN
          then Inl [Invalid_union p [[Invalid_type p PString PNan], [Invalid_type p PNumber PNan]]]
          else Inr (JStr (String_js n))
      | _ \<Rightarrow>
          Inl [Invalid_union p
                 [[Invalid_type p PString (getParsedType v)],
                  [Invalid_type p PNumber (getParsedType v)]]])"
  by (cases v) (simp_all add: expect_type_def number_to_string_def)

lemma date_field:
  "parse (ZUnion [ZDate, ZEffects ZString (string_to_date h)]) p v =
     (case v of
        JDate t \<Rightarrow>
          if t = None
          then Inl [Invalid_union p [[Invalid_date p], [Invalid_type p PString PDate]]]
          else Inr v
      | JStr s \<Rightarrow> Inr (new_Date h s)
      | _ \<Rightarrow>
          Inl [Invalid_union p
                 [[Invalid_type p PDate (getParsedType v)],
                  [Invalid_type p PString (getParsedType v)]]])"
  by (cases v) (simp_all add: expect_type_def string_to_date_def)

lemma year_field:
  "parse (ZOptional (ZNullable (ZUnion [ZOptional ZNumber,
                                       ZOptional (ZEffects ZString string_to_year)]))) p v =
     (case v of
        JUndefined \<Rightarrow> Inr JUndefined
      | JNull \<Rightarrow> Inr JNull
      | JNum n \<Rightarrow>
          if n = NaN
          then Inl [Invalid_union p [[Invalid_type p PNumber PNan], [Invalid_type p PString PNan]]]
          else Inr v
      | JStr s \<Rightarrow> Inr (if s \<noteq> [] then JNum (Number_js s) else JUndefined)
      | _ \<Rightarrow>
          Inl [Invalid_union p
                 [[Invalid_type p PNumber (getParsedType v)],
                  [Invalid_type p PString (getParsedType v)]]])"
  by (cases v) (simp_all add: expect_type_def string_to_year_def)

section \<open>The insert schemas, field by field\<close>

lemmas object_defs = get_prop_def has_prop_def expect_type_def

lemma property_distinct: "distinct (map fst (shape_of insertPropertySchema))"
  by (simp add: property_shape)

lemma property_object: "insertPropertySchema = ZObject (shape_of insertPropertySchema)"
  by (simp add: property_shape)

lemma property_others:
  "others_valid insertPropertySchema f kvs \<Longrightarrow>
     list_all (\<lambda>(k, s). k = f \<or> \<not> isl (parse s [Key k] (get_prop kvs k)))
       (shape_of insertPropertySchema)"
  by (simp add: others_valid_def)

subsection \<open>Bedrooms, bathrooms and square feet\<close>




lemma appointment_distinct: "distinct (map fst (shape_of (insertAppointmentSchema h)))"
  by (simp add: appointment_shape)

lemma appointment_object:
  "insertAppointmentSchema h = ZObject (shape_of (insertAppointmentSchema h))"
  by (simp add: appointment_shape)

lemma appointment_others:
  "others_valid (insertAppointmentSchema h) f kvs \<Longrightarrow>
     list_all (\<lambda>(k, s). k = f \<or> \<not> isl (parse s [Key k] (get_prop kvs k)))
       (shape_of (insertAppointmentSchema h))"
  by (simp add: others_valid_def)

subsection \<open>The date of an appointment\<close>

text \<open>
  Claim C2 says that the \<^verbatim>\<open>date\<close> of an appointment takes a date or a string, and that
  an unparseable string such as \<^verbatim>\<open>"not-a-date"\<close> fails validation. The last part does
  not hold: \<^verbatim>\<open>new Date(val)\<close> makes an invalid date of the string and the schema checks
  nothing after the transform, so the payload is valid and the validated value is the
  invalid date. The host of the statement recognises no string outside the date-time
  format; no engine recognises this one.
\<close>

theorem unparseable_date_counterexample:
  "new_Date utc_host ''not-a-date'' = JDate None \<and>
   safeParse (insertAppointmentSchema utc_host)
     (JObject (put_prop ''date'' (JStr ''not-a-date'') example_appointment))
     = Inr (JObject (put_prop ''date'' (JDate None) example_appointment))"
  by (simp add: safeParse_def appointment_shape example_appointment_def object_defs
        string_to_date_def new_Date_def Date_parse_defs utc_host_def)

text \<open>
  Claim C2, amended: on every host, in an appointment payload whose other fields are
  valid, the \<^verbatim>\<open>date\<close> is accepted when it is a valid date, which is passed through, and
  when it is a string, whatever the string: the validated value is
  \<^verbatim>\<open>new Date(string)\<close>. For the timestamp \<^verbatim>\<open>YYYY-MM-DDTHH:mm:ss.sssZ\<close> of a date and a time of
  day that is the date value of that instant, and for a string that begins with a
  letter it is what the host makes of the string, the invalid date when the host does
  not recognise it.
\<close>

theorem date_coercion:
  assumes others: "others_valid (insertAppointmentSchema h) ''date'' kvs"
  shows "(get_prop kvs ''date'' = JDate (Some t) \<longrightarrow>
            (\<exists>out. safeParse (insertAppointmentSchema h) (JObject kvs) = Inr (JObject out)
                 \<and> get_prop out ''date'' = JDate (Some t)))
       \<and> (get_prop kvs ''date'' = JStr s \<longrightarrow>
            (\<exists>out. safeParse (insertAppointmentSchema h) (JObject kvs) = Inr (JObject out)
                 \<and> get_prop out ''date'' = new_Date h s))
       \<and> (y \<le> 9999 \<and> valid_date (int y) (int m) (int d)
            \<and> hh \<le> 23 \<and> mi \<le> 59 \<and> sec \<le> 59 \<and> ms \<le> 999 \<longrightarrow>
            new_Date h (iso_string y m d hh mi sec ms)
              = JDate (Some (MakeDate (days_from_civil (int y) (int m) (int d))
                               (MakeTime (int hh) (int mi) (int sec) (int ms)))))
       \<and> (is_letter c \<longrightarrow> new_Date h (c # r) = JDate (TimeClip (other_formats h (c # r))))"
proof -
  let ?shape = "shape_of (insertAppointmentSchema h)"
  let ?s = "ZUnion [ZDate, ZEffects ZString (string_to_date h)]"
  have mem: "(''date'', ?s) \<in> set ?shape"
    by (simp add: appointment_shape)
  note oth = appointment_others [OF others]
  have date: "get_prop kvs ''date'' = JDate (Some t) \<Longrightarrow>
               parse ?s [Key ''date''] (get_prop kvs ''date'') = Inr (JDate (Some t))"
    unfolding date_field by simp
  have str: "get_prop kvs ''date'' = JStr s \<Longrightarrow>
               parse ?s [Key ''date''] (get_prop kvs ''date'') = Inr (new_Date h s)"
    unfolding date_field by simp
  have fields:
    "(get_prop kvs ''date'' = JDate (Some t) \<longrightarrow>
        (\<exists>out. safeParse (insertAppointmentSchema h) (JObject kvs) = Inr (JObject out)
             \<and> get_prop out ''date'' = JDate (Some t)))
     \<and> (get_prop kvs ''date'' = JStr s \<longrightarrow>
        (\<exists>out. safeParse (insertAppointmentSchema h) (JObject kvs) = Inr (JObject out)
             \<and> get_prop out ''date'' = new_Date h s))"
    using field_valid [OF oth mem appointment_distinct date]
          field_valid [OF oth mem appointment_distinct str]
    unfolding appointment_object [symmetric] by blast
  have iso: "new_Date h (iso_string y m d hh mi sec ms)
               = JDate (Some (MakeDate (days_from_civil (int y) (int m) (int d))
                                (MakeTime (int hh) (int mi) (int sec) (int ms))))"
    if "y \<le> 9999" "valid_date (int y) (int m) (int d)"
       "hh \<le> 23" "mi \<le> 59" "sec \<le> 59" "ms \<le> 999"
    using TimeClip_iso [OF that] by (simp add: new_Date_def)
  have letter: "new_Date h (c # r) = JDate (TimeClip (other_formats h (c # r)))"
    if "is_letter c"
    using Date_parse_letter [OF that] by (simp add: new_Date_def)
  show ?thesis using fields iso letter by blast
qed

theorem date_coercion_witness:
  "others_valid (insertAppointmentSchema utc_host) ''date''
     (put_prop ''date'' (JStr ''2024-05-01T10:00:00Z'') example_appointment)
   \<and> (\<exists>out. safeParse (insertAppointmentSchema utc_host)
               (JObject (put_prop ''date'' (JStr ''2024-05-01T10:00:00Z'') example_appointment))
               = Inr (JObject out)
            \<and> get_prop out ''date'' = JDate (Some 1714557600000))
   \<and> others_valid (insertAppointmentSchema utc_host) ''date'' example_appointment
   \<and> (\<exists>out. safeParse (insertAppointmentSchema utc_host) (JObject example_appointment)
               = Inr (JObject out)
            \<and> get_prop out ''date'' = JDate (Some 1714557600000))
   \<and> new_Date utc_host ''2024-05-01T10:00:00.250Z'' = JDate (Some 1714557600250)
   \<and> new_Date utc_host ''not-a-date'' = JDate None"
proof -
  let ?kvs = "put_prop ''date'' (JStr ''2024-05-01T10:00:00Z'') example_appointment"
  have h: "others_valid (insertAppointmentSchema utc_host) ''date'' ?kvs"
    "others_valid (insertAppointmentSchema utc_host) ''date'' example_appointment"
    by (simp_all add: others_valid_def appointment_shape example_appointment_def object_defs)
  have g: "get_prop ?kvs ''date'' = JStr ''2024-05-01T10:00:00Z''"
    "get_prop example_appointment ''date'' = JDate (Some 1714557600000)"
    by (simp_all add: example_appointment_def object_defs)
  have n: "new_Date utc_host ''2024-05-01T10:00:00Z'' = JDate (Some 1714557600000)"
    by (simp add: new_Date_def Date_parse_defs)
  have i: "iso_string 2024 5 1 10 0 0 250 = ''2024-05-01T10:00:00.250Z''"
    by (simp add: iso_string_def pad_def digits_of_numeral)
  have v: "(2024::nat) \<le> 9999 \<and> valid_date (int 2024) (int 5) (int 1)
             \<and> (10::nat) \<le> 23 \<and> (0::nat) \<le> 59 \<and> (0::nat) \<le> 59 \<and> (250::nat) \<le> 999"
    by (simp add: valid_date_def days_in_month_def)
  have e: "MakeDate (days_from_civil (int 2024) (int 5) (int 1))
             (MakeTime (int 10) (int 0) (int 0) (int 250)) = 1714557600250"
    by (simp add: MakeDate_def MakeTime_def days_from_civil_def)
  have l: "is_letter CHR ''n''" "TimeClip (other_formats utc_host ''not-a-date'') = None"
    by (simp_all add: is_letter_def utc_host_def TimeClip_def)
  show ?thesis
    using g n i v e l h
      date_coercion [OF h(1), of undefined "''2024-05-01T10:00:00Z''"
                       2024 5 1 10 0 0 250 "CHR ''n''" "''ot-a-date''"]
      date_coercion [OF h(2), of 1714557600000 undefined
                       2024 5 1 10 0 0 250 "CHR ''n''" "''ot-a-date''"]
    by simp
qed

subsection \<open>Price and coordinates\<close>

text \<open>
  Claim C4 says that \<^verbatim>\<open>price\<close>, \<^verbatim>\<open>lat\<close> and \<^verbatim>\<open>lng\<close> take a number or a string, and that
  the validated value is the decimal representation of the input. It does not hold for
  every number. The number NaN is rejected: \<^verbatim>\<open>z.number()\<close> does not take it. An infinity
  validates to \<^verbatim>\<open>"Infinity"\<close>, which is no decimal. And \<^verbatim>\<open>String(number)\<close> writes the
  shortest decimal that rounds to the number, not the decimal expansion of the number:
  \<open>2\<^sup>6\<^sup>4\<close>, which is 18446744073709551616, validates to \<^verbatim>\<open>"18446744073709552000"\<close>.
\<close>

theorem decimal_fields_counterexample:
  "safeParse insertPropertySchema
     (JObject (put_prop ''price'' (JNum NaN) example_property))
     = Inl [Invalid_union [Key ''price'']
              [[Invalid_type [Key ''price''] PString PNan],
               [Invalid_type [Key ''price''] PNumber PNan]]]
   \<and> safeParse insertPropertySchema
       (JObject (put_prop ''price'' (JNum PosInf) example_property))
     = Inr (JObject (put_prop ''price'' (JStr ''Infinity'') example_property))
   \<and> safeParse insertPropertySchema
       (JObject (put_prop ''price'' (JNum (Fin 18446744073709551616)) example_property))
     = Inr (JObject (put_prop ''price'' (JStr ''18446744073709552000'') example_property))"
proof -
  have s: "String_js (Fin 18446744073709551616) = ''18446744073709552000''"
    by (simp add: String_js_defs)
  have i: "String_js PosInf = ''Infinity''"
    by (simp add: String_js_def)
  show ?thesis
    by (simp add: safeParse_def property_shape example_property_def object_defs
          number_to_string_def s i)
qed

text \<open>
  Claim C4, amended: in a property payload, each of \<^verbatim>\<open>price\<close>, \<^verbatim>\<open>lat\<close> and \<^verbatim>\<open>lng\<close> takes a
  string or a number other than NaN, and its validated value is always a string: the
  string itself for a string, and \<^verbatim>\<open>String(number)\<close> for a number. For an integer of
  magnitude below \<open>2\<^sup>5\<^sup>3\<close> that is its decimal representation, with the sign \<^verbatim>\<open>-\<close> when it is
  negative, and \<^verbatim>\<open>Number\<close> reads the number back from it. The first two parts are about
  a payload whose other fields are valid; the third is about every payload that
  validates.
\<close>

theorem decimal_fields_textual:
  assumes f: "f \<in> {''price'', ''lat'', ''lng''}"
  shows "(others_valid insertPropertySchema f kvs \<and> get_prop kvs f = JStr s \<longrightarrow>
            (\<exists>out. safeParse insertPropertySchema (JObject kvs) = Inr (JObject out)
                 \<and> get_prop out f = JStr s))
       \<and> (others_valid insertPropertySchema f kvs \<and> get_prop kvs f = JNum n \<and> n \<noteq> NaN \<longrightarrow>
            (\<exists>out. safeParse insertPropertySchema (JObject kvs) = Inr (JObject out)
                 \<and> get_prop out f = JStr (String_js n)))
       \<and> (safeParse insertPropertySchema (JObject kvs) = Inr r \<longrightarrow>
            (\<exists>out. r = JObject out \<and> getParsedType (get_prop out f) = PString
                 \<and> (get_prop out f = get_prop kvs f
                      \<or> (\<exists>m. get_prop kvs f = JNum m \<and> get_prop out f = JStr (String_js m)))))
       \<and> (k < 2 ^ 53 \<longrightarrow>
            String_js (Fin (of_nat k)) = digits_of k
            \<and> Number_js (String_js (Fin (of_nat k))) = Fin (of_nat k))
       \<and> (0 < k \<and> k < 2 ^ 53 \<longrightarrow> String_js (Fin (- of_nat k)) = CHR ''-'' # digits_of k)"
proof -
  let ?shape = "shape_of insertPropertySchema"
  let ?s = "ZUnion [ZString, ZEffects ZNumber number_to_string]"
  have mem: "(f, ?s) \<in> set ?shape"
    using f by (auto simp: property_shape)
  have str: "get_prop kvs f = JStr s \<Longrightarrow> parse ?s [Key f] (get_prop kvs f) = Inr (JStr s)"
    unfolding decimal_field by simp
  have num: "get_prop kvs f = JNum n \<Longrightarrow> n \<noteq> NaN \<Longrightarrow>
               parse ?s [Key f] (get_prop kvs f) = Inr (JStr (String_js n))"
    unfolding decimal_field by simp
  have a: "\<exists>out. safeParse insertPropertySchema (JObject kvs) = Inr (JObject out)
                 \<and> get_prop out f = JStr s"
    if "others_valid insertPropertySchema f kvs" "get_prop kvs f = JStr s"
    using field_valid [OF property_others [OF that(1)] mem property_distinct str [OF that(2)]]
    unfolding property_object [symmetric] by blast
  have b: "\<exists>out. safeParse insertPropertySchema (JObject kvs) = Inr (JObject out)
                 \<and> get_prop out f = JStr (String_js n)"
    if "others_valid insertPropertySchema f kvs" "get_prop kvs f = JNum n" "n \<noteq> NaN"
    using field_valid [OF property_others [OF that(1)] mem property_distinct num [OF that(2,3)]]
    unfolding property_object [symmetric] by blast
  have c: "\<exists>out. r = JObject out \<and> getParsedType (get_prop out f) = PString
                 \<and> (get_prop out f = get_prop kvs f
                      \<or> (\<exists>m. get_prop kvs f = JNum m \<and> get_prop out f = JStr (String_js m)))"
    if ok: "safeParse insertPropertySchema (JObject kvs) = Inr r"
  proof -
    from ok have "safeParse (ZObject ?shape) (JObject kvs) = Inr r"
      unfolding property_object [symmetric] .
    from valid_field [OF this mem property_distinct]
    obtain out where out: "r = JObject out"
      and p: "parse ?s [Key f] (get_prop kvs f) = Inr (get_prop out f)" by blast
    from p have "Inr (get_prop out f) = parse ?s [Key f] (get_prop kvs f)" by simp
    then show ?thesis unfolding decimal_field using out
      by (cases "get_prop kvs f") (auto split: if_splits)
  qed
  have d: "String_js (Fin (of_nat k)) = digits_of k
             \<and> Number_js (String_js (Fin (of_nat k))) = Fin (of_nat k)"
    if "k < 2 ^ 53"
    using String_js_natural [OF that] Number_js_String_js [OF that] by simp
  have e: "String_js (Fin (- of_nat k)) = CHR ''-'' # digits_of k"
    if "0 < k" "k < 2 ^ 53"
    using String_js_negative [OF that] .
  show ?thesis using a b c d e by blast
qed

theorem decimal_fields_textual_witness:
  "others_valid insertPropertySchema ''price''
     (put_prop ''price'' (JNum (Fin 250000)) example_property)
   \<and> (\<exists>out. safeParse insertPropertySchema
               (JObject (put_prop ''price'' (JNum (Fin 250000)) example_property))
               = Inr (JObject out)
            \<and> get_prop out ''price'' = JStr ''250000'')
   \<and> others_valid insertPropertySchema ''price'' example_property
   \<and> (\<exists>out. safeParse insertPropertySchema (JObject example_property) = Inr (JObject out)
            \<and> get_prop out ''price'' = JStr ''250000.50'')
   \<and> safeParse insertPropertySchema (JObject example_property)
       = Inr (JObject example_property)
   \<and> getParsedType (get_prop example_property ''price'') = PString
   \<and> String_js (Fin 250000) = ''250000''
   \<and> Number_js ''250000'' = Fin 250000
   \<and> String_js (Fin (- 250000)) = ''-250000''"
proof -
  let ?kvs = "put_prop ''price'' (JNum (Fin 250000)) example_property"
  have h: "others_valid insertPropertySchema ''price'' ?kvs"
    "others_valid insertPropertySchema ''price'' example_property"
    by (simp_all add: others_valid_def property_shape example_property_def object_defs)
  have g: "get_prop ?kvs ''price'' = JNum (Fin 250000)"
    "get_prop example_property ''price'' = JStr ''250000.50''"
    by (simp_all add: example_property_def object_defs)
  have p: "safeParse insertPropertySchema (JObject example_property)
             = Inr (JObject example_property)"
    by (simp add: safeParse_def property_shape example_property_def object_defs)
  have d: "digits_of 250000 = ''250000''" "(0::nat) < 250000" "(250000::nat) < 2 ^ 53"
    "Fin (of_nat 250000) = Fin 250000" "Fin (- of_nat 250000) = Fin (- 250000)"
    by (simp_all add: digits_of_numeral)
  have f: "''price'' \<in> {''price'', ''lat'', ''lng''}" by simp
  show ?thesis
    using h g p d
      decimal_fields_textual [OF f, of ?kvs undefined "Fin 250000" undefined 250000]
      decimal_fields_textual [OF f, of example_property "''250000.50''" undefined
                                "JObject example_property" 250000]
    by auto
qed

subsection \<open>The year of construction\<close>

text \<open>
  Claim C7 says that \<^verbatim>\<open>yearBuilt\<close> is optional, that the empty string counts as absent,
  that a numeric string validates to its number, and that a plain number is accepted.
  The last part does not hold for every number: NaN is a number, and neither
  alternative of the union takes it, \<^verbatim>\<open>z.number()\<close> no more than \<^verbatim>\<open>z.string()\<close>.
\<close>

theorem yearBuilt_nan_counterexample:
  "safeParse insertPropertySchema
     (JObject (put_prop ''yearBuilt'' (JNum NaN) example_property))
     = Inl [Invalid_union [Key ''yearBuilt'']
              [[Invalid_type [Key ''yearBuilt''] PNumber PNan],
               [Invalid_type [Key ''yearBuilt''] PString PNan]]]"
  by (simp add: safeParse_def property_shape example_property_def object_defs)

text \<open>
  Claim C7, amended: \<^verbatim>\<open>yearBuilt\<close> is optional. In a property payload whose other fields
  are valid: when it is omitted, the payload validates and the result has no
  \<^verbatim>\<open>yearBuilt\<close>; when it is the empty string, the validated value is \<^verbatim>\<open>undefined\<close>; when it
  is a non-empty string, the validated value is \<^verbatim>\<open>Number(string)\<close>, and for the decimal
  digits of a natural number below \<open>2\<^sup>5\<^sup>3\<close> that is this number, so 1998 for \<^verbatim>\<open>"1998"\<close>;
  and a number other than NaN is passed through.
\<close>

theorem yearBuilt_optional:
  assumes others: "others_valid insertPropertySchema ''yearBuilt'' kvs"
  shows "(\<not> has_prop kvs ''yearBuilt'' \<longrightarrow>
            (\<exists>out. safeParse insertPropertySchema (JObject kvs) = Inr (JObject out)
                 \<and> \<not> has_prop out ''yearBuilt''))
       \<and> (get_prop kvs ''yearBuilt'' = JStr [] \<longrightarrow>
            (\<exists>out. safeParse insertPropertySchema (JObject kvs) = Inr (JObject out)
                 \<and> get_prop out ''yearBuilt'' = JUndefined))
       \<and> (get_prop kvs ''yearBuilt'' = JStr s \<and> s \<noteq> [] \<longrightarrow>
            (\<exists>out. safeParse insertPropertySchema (JObject kvs) = Inr (JObject out)
                 \<and> get_prop out ''yearBuilt'' = JNum (Number_js s)))
       \<and> (get_prop kvs ''yearBuilt'' = JStr (digits_of k) \<and> k < 2 ^ 53 \<longrightarrow>
            (\<exists>out. safeParse insertPropertySchema (JObject kvs) = Inr (JObject out)
                 \<and> get_prop out ''yearBuilt'' = JNum (Fin (of_nat k))))
       \<and> (get_prop kvs ''yearBuilt'' = JNum n \<and> n \<noteq> NaN \<longrightarrow>
            (\<exists>out. safeParse insertPropertySchema (JObject kvs) = Inr (JObject out)
                 \<and> get_prop out ''yearBuilt'' = JNum n))"
proof -
  let ?shape = "shape_of insertPropertySchema"
  let ?f = "''yearBuilt''"
  let ?s = "ZOptional (ZNullable (ZUnion [ZOptional ZNumber,
                                         ZOptional (ZEffects ZString string_to_year)]))"
  have mem: "(?f, ?s) \<in> set ?shape"
    by (simp add: property_shape)
  note oth = property_others [OF others]
  have absent: "\<not> has_prop kvs ?f \<Longrightarrow> parse ?s [Key ?f] (get_prop kvs ?f) = Inr JUndefined"
    unfolding year_field by (simp add: has_prop_def get_prop_def)
  have empty: "get_prop kvs ?f = JStr [] \<Longrightarrow> parse ?s [Key ?f] (get_prop kvs ?f) = Inr JUndefined"
    unfolding year_field by simp
  have str: "get_prop kvs ?f = JStr s \<Longrightarrow> s \<noteq> [] \<Longrightarrow>
               parse ?s [Key ?f] (get_prop kvs ?f) = Inr (JNum (Number_js s))"
    unfolding year_field by simp
  have digits: "get_prop kvs ?f = JStr (digits_of k) \<Longrightarrow> k < 2 ^ 53 \<Longrightarrow>
               parse ?s [Key ?f] (get_prop kvs ?f) = Inr (JNum (Fin (of_nat k)))"
    unfolding year_field by (simp add: digits_of_nonempty Number_js_natural)
  have num: "get_prop kvs ?f = JNum n \<Longrightarrow> n \<noteq> NaN \<Longrightarrow>
               parse ?s [Key ?f] (get_prop kvs ?f) = Inr (JNum n)"
    unfolding year_field by simp
  show ?thesis
    using field_valid [OF oth mem property_distinct absent]
          field_valid [OF oth mem property_distinct empty]
          field_valid [OF oth mem property_distinct str]
          field_valid [OF oth mem property_distinct digits]
          field_valid [OF oth mem property_distinct num]
    unfolding property_object [symmetric] by blast
qed

theorem yearBuilt_optional_witness:
  "others_valid insertPropertySchema ''yearBuilt'' example_property
   \<and> (\<exists>out. safeParse insertPropertySchema (JObject example_property) = Inr (JObject out)
            \<and> \<not> has_prop out ''yearBuilt'')
   \<and> (\<exists>out. safeParse insertPropertySchema
               (JObject (put_prop ''yearBuilt'' (JStr '''') example_property))
               = Inr (JObject out)
            \<and> get_prop out ''yearBuilt'' = JUndefined)
   \<and> (\<exists>out. safeParse insertPropertySchema
               (JObject (put_prop ''yearBuilt'' (JStr ''1998'') example_property))
               = Inr (JObject out)
            \<and> get_prop out ''yearBuilt'' = JNum (Fin 1998))
   \<and> (\<exists>out. safeParse insertPropertySchema
               (JObject (put_prop ''yearBuilt'' (JNum (Fin 1998)) example_property))
               = Inr (JObject out)
            \<and> get_prop out ''yearBuilt'' = JNum (Fin 1998))"
proof -
  let ?empty = "put_prop ''yearBuilt'' (JStr '''') example_property"
  let ?str = "put_prop ''yearBuilt'' (JStr ''1998'') example_property"
  let ?num = "put_prop ''yearBuilt'' (JNum (Fin 1998)) example_property"
  have h: "others_valid insertPropertySchema ''yearBuilt'' example_property"
    "others_valid insertPropertySchema ''yearBuilt'' ?empty"
    "others_valid insertPropertySchema ''yearBuilt'' ?str"
    "others_valid insertPropertySchema ''yearBuilt'' ?num"
    by (simp_all add: others_valid_def property_shape example_property_def object_defs)
  have g: "\<not> has_prop example_property ''yearBuilt''"
    "get_prop ?empty ''yearBuilt'' = JStr ''''"
    "get_prop ?str ''yearBuilt'' = JStr ''1998''"
    "get_prop ?num ''yearBuilt'' = JNum (Fin 1998)"
    by (simp_all add: example_property_def object_defs)
  have n: "Number_js ''1998'' = Fin 1998"
    by (simp add: Number_js_defs)
  have d: "digits_of 1998 = ''1998''" "(1998::nat) < 2 ^ 53"
    by (simp_all add: digits_of_numeral)
  show ?thesis
    using h g n d
      yearBuilt_optional [OF h(1)] yearBuilt_optional [OF h(2)]
      yearBuilt_optional [OF h(3), of "''1998''" 1998]
      yearBuilt_optional [OF h(4), of _ _ "Fin 1998"]
    by simp
qed

subsection \<open>Required fields\<close>

lemma required_undefined:
  assumes "s \<in> required_schemas"
  shows "\<exists>i. parse s p JUndefined = Inl [i] \<and> issue_path i = p \<and> reports_missing i"
  using assms by (auto simp: required_schemas_def expect_type_def)

lemma required_property_fields:
  assumes "f \<in> {''title'', ''description'', ''price'', ''address'', ''city'', ''state'',
                 ''zipCode'', ''lat'', ''lng'', ''bedrooms'', ''bathrooms'', ''squareFeet'',
                 ''propertyType'', ''listingType'', ''imageUrl'', ''userId''}"
  shows "\<exists>s \<in> required_schemas. (f, s) \<in> set (shape_of insertPropertySchema)"
  using assms by (elim insertE emptyE; simp add: property_shape required_schemas_def)

text \<open>
  Claim C6: a property payload in which a required field is missing (absent, or
  \<^verbatim>\<open>undefined\<close>) fails validation, with an issue whose path is that field and which
  reports the missing value: the \<^verbatim>\<open>Required\<close> issue of the library for a field with a
  plain type, and for a field with a union type the issue of the union, every
  alternative of which is the \<^verbatim>\<open>Required\<close> issue. A failed validation has no output, so
  the field is given no default.
\<close>

theorem missing_required_field:
  assumes f: "f \<in> {''title'', ''description'', ''price'', ''address'', ''city'', ''state'',
                   ''zipCode'', ''lat'', ''lng'', ''bedrooms'', ''bathrooms'', ''squareFeet'',
                   ''propertyType'', ''listingType'', ''imageUrl'', ''userId''}"
    and missing: "get_prop kvs f = JUndefined"
  shows "\<exists>issues. safeParse insertPropertySchema (JObject kvs) = Inl issues
           \<and> (\<exists>i \<in> set issues. issue_path i = [Key f] \<and> reports_missing i)"
proof -
  let ?shape = "shape_of insertPropertySchema"
  from required_property_fields [OF f]
  obtain s where s: "s \<in> required_schemas" and mem: "(f, s) \<in> set ?shape" by blast
  from required_undefined [OF s, of "[Key f]"]
  obtain i where bad: "parse s [Key f] (get_prop kvs f) = Inl [i]"
    and i: "issue_path i = [Key f]" "reports_missing i"
    unfolding missing by blast
  from field_invalid [OF mem bad] i show ?thesis
    unfolding property_object [symmetric] by auto
qed

theorem missing_required_field_witness:
  "get_prop (del_prop ''title'' example_property) ''title'' = JUndefined
   \<and> safeParse insertPropertySchema (JObject (del_prop ''title'' example_property))
       = Inl [Invalid_type [Key ''title''] PString PUndefined]
   \<and> message (Invalid_type [Key ''title''] PString PUndefined) = ''Required''
   \<and> (\<exists>issues. safeParse insertPropertySchema (JObject (del_prop ''title'' example_property))
                  = Inl issues
          \<and> (\<exists>i \<in> set issues. issue_path i = [Key ''title''] \<and> reports_missing i))
   \<and> safeParse insertPropertySchema (JObject (del_prop ''price'' example_property))
       = Inl [Invalid_union [Key ''price'']
                [[Invalid_type [Key ''price''] PString PUndefined],
                 [Invalid_type [Key ''price''] PNumber PUndefined]]]"
proof -
  let ?kvs = "del_prop ''title'' example_property"
  have g: "get_prop ?kvs ''title'' = JUndefined"
    by (simp add: example_property_def del_prop_def object_defs)
  have e: "safeParse insertPropertySchema (JObject ?kvs)
             = Inl [Invalid_type [Key ''title''] PString PUndefined]"
    by (simp add: safeParse_def property_shape example_property_def del_prop_def object_defs)
  have e': "safeParse insertPropertySchema (JObject (del_prop ''price'' example_property))
       = Inl [Invalid_union [Key ''price'']
                [[Invalid_type [Key ''price''] PString PUndefined],
                 [Invalid_type [Key ''price''] PNumber PUndefined]]]"
    by (simp add: safeParse_def property_shape example_property_def del_prop_def object_defs)
  show ?thesis
    using g e e' missing_required_field [of "''title''" ?kvs] by simp
qed

section \<open>The keys of a validated object\<close>

lemma omitted_keys:
  assumes "safeParse (omit ks (ZObject shape)) (JObject kvs) = Inr (JObject out)"
    and "k \<in> set ks"
  shows "\<not> has_prop out k"
proof -
  have "fst ` set out \<subseteq> fst ` set (filter (\<lambda>(k, s). k \<notin> set ks) shape)"
    using result_keys [of "filter (\<lambda>(k, s). k \<notin> set ks) shape" kvs out] assms(1) by simp
  then have "k \<notin> fst ` set out" using assms(2) by auto
  then show ?thesis by (simp add: has_prop_def map_of_eq_None_iff)
qed

lemma property_result_keys:
  assumes "safeParse insertPropertySchema (JObject kvs) = Inr (JObject out)"
  shows "\<not> has_prop out ''id'' \<and> \<not> has_prop out ''createdAt''"
proof -
  have "fst ` set out \<subseteq> fst ` set (shape_of insertPropertySchema)"
    using result_keys [of "shape_of insertPropertySchema" kvs out] assms
    unfolding property_object [symmetric] by simp
  then have "''id'' \<notin> fst ` set out \<and> ''createdAt'' \<notin> fst ` set out"
    by (auto simp: property_shape)
  then show ?thesis by (simp add: has_prop_def map_of_eq_None_iff)
qed

lemma appointment_result_keys:
  assumes "safeParse (insertAppointmentSchema h) (JObject kvs) = Inr (JObject out)"
  shows "\<not> has_prop out ''id'' \<and> \<not> has_prop out ''createdAt''"
proof -
  have "fst ` set out \<subseteq> fst ` set (shape_of (insertAppointmentSchema h))"
    using result_keys [of "shape_of (insertAppointmentSchema h)" kvs out] assms
    unfolding appointment_object [symmetric] by simp
  then have "''id'' \<notin> fst ` set out \<and> ''createdAt'' \<notin> fst ` set out"
    by (auto simp: appointment_shape)
  then show ?thesis by (simp add: has_prop_def map_of_eq_None_iff)
qed

text \<open>
  Claim C3 says that a validated insert never contains \<^verbatim>\<open>id\<close> and \<^verbatim>\<open>createdAt\<close>, for a
  user as for a property and an appointment. The schemas of the property and of the
  appointment end in \<^verbatim>\<open>.omit({id: true, createdAt: true})\<close> (and the two lemmas above
  hold for them), but the schema of the user has no \<^verbatim>\<open>omit\<close>: it keeps both keys, as
  optional fields, and a payload that carries them validates with them.
\<close>

theorem user_insert_keeps_id:
  "safeParse insertUserSchema
     (JObject ((''id'', JNum (Fin 7)) # example_user @ [(''createdAt'', JDate (Some 0))]))
     = Inr (JObject ((''id'', JNum (Fin 7)) # example_user @ [(''createdAt'', JDate (Some 0))]))"
  by (simp add: safeParse_def user_shape example_user_def object_defs)

section \<open>The property filter\<close>

text \<open>
  Claim C9: the filter schema declares exactly the eleven fields \<^verbatim>\<open>city\<close>, \<^verbatim>\<open>minPrice\<close>,
  \<^verbatim>\<open>maxPrice\<close>, \<^verbatim>\<open>minBeds\<close>, \<^verbatim>\<open>minBaths\<close>, \<^verbatim>\<open>propertyType\<close>, \<^verbatim>\<open>listingType\<close>, \<^verbatim>\<open>minSqft\<close>,
  \<^verbatim>\<open>maxSqft\<close>, \<^verbatim>\<open>minYear\<close> and \<^verbatim>\<open>maxYear\<close>, each an optional string; the empty object
  validates, and so does an object with only \<^verbatim>\<open>city\<close> set, to any string.
\<close>

theorem filter_schema_fields:
  "propertyFilterSchema =
     ZObject (map (\<lambda>k. (k, ZOptional ZString))
       [''city'', ''minPrice'', ''maxPrice'', ''minBeds'', ''minBaths'', ''propertyType'',
        ''listingType'', ''minSqft'', ''maxSqft'', ''minYear'', ''maxYear''])
   \<and> safeParse propertyFilterSchema (JObject []) = Inr (JObject [])
   \<and> safeParse propertyFilterSchema (JObject [(''city'', JStr c)])
       = Inr (JObject [(''city'', JStr c)])"
  by (simp add: propertyFilterSchema_def safeParse_def object_defs)

lemma optional_strings:
  assumes "list_all (\<lambda>k. getParsedType (get_prop kvs k) = PUndefined
                          \<or> getParsedType (get_prop kvs k) = PString) ks"
  shows "mergeObject (map (\<lambda>(k, s). (k, has_prop kvs k, parse s (p @ [Key k]) (get_prop kvs k)))
                        (map (\<lambda>k. (k, ZOptional ZString)) ks))
           = Inr (map (\<lambda>k. (k, get_prop kvs k)) (filter (has_prop kvs) ks))"
  using assms
proof (induction ks)
  case Nil
  show ?case by simp
next
  case (Cons k ks)
  then have rest: "mergeObject (map (\<lambda>(k, s). (k, has_prop kvs k, parse s (p @ [Key k]) (get_prop kvs k)))
                        (map (\<lambda>k. (k, ZOptional ZString)) ks))
           = Inr (map (\<lambda>k. (k, get_prop kvs k)) (filter (has_prop kvs) ks))" by simp
  from Cons.prems have t: "getParsedType (get_prop kvs k) = PUndefined
                          \<or> getParsedType (get_prop kvs k) = PString" by simp
  have u: "\<not> has_prop kvs k \<Longrightarrow> get_prop kvs k = JUndefined"
    by (simp add: has_prop_def get_prop_def)
  show ?case
  proof (cases "get_prop kvs k")
    case JUndefined
    then show ?thesis using rest by simp
  next
    case (JStr x)
    then show ?thesis using rest u by (auto simp: expect_type_def)
  qed (use t in \<open>auto split: if_splits\<close>)
qed

text \<open>
  Claim C10: an object whose recognized fields are valid (each absent, \<^verbatim>\<open>undefined\<close> or
  a string) validates whatever other fields it carries, and the result holds the
  recognized fields of the input, with their values, and nothing else: the fields the
  schema does not declare are stripped.
\<close>

theorem filter_strips_unknown_keys:
  assumes "list_all (\<lambda>k. getParsedType (get_prop kvs k) = PUndefined
                          \<or> getParsedType (get_prop kvs k) = PString)
             (map fst (shape_of propertyFilterSchema))"
  shows "safeParse propertyFilterSchema (JObject kvs)
           = Inr (JObject (map (\<lambda>k. (k, get_prop kvs k))
                    (filter (has_prop kvs) (map fst (shape_of propertyFilterSchema)))))"
proof -
  let ?ks = "[''city'', ''minPrice'', ''maxPrice'', ''minBeds'', ''minBaths'', ''propertyType'',
        ''listingType'', ''minSqft'', ''maxSqft'', ''minYear'', ''maxYear'']"
  have S: "propertyFilterSchema = ZObject (map (\<lambda>k. (k, ZOptional ZString)) ?ks)"
    by (simp add: propertyFilterSchema_def)
  have K: "map fst (shape_of propertyFilterSchema) = ?ks"
    by (simp add: propertyFilterSchema_def)
  show ?thesis
    using optional_strings [of kvs ?ks "[]"] assms
    unfolding K unfolding S safeParse_def parse.simps by simp
qed

theorem filter_strips_unknown_keys_witness:
  "safeParse propertyFilterSchema
     (JObject [(''page'', JNum (Fin 2)), (''city'', JStr ''Austin''), (''sort'', JStr ''price'')])
     = Inr (JObject [(''city'', JStr ''Austin'')])"
proof -
  let ?kvs = "[(''page'', JNum (Fin 2)), (''city'', JStr ''Austin''), (''sort'', JStr ''price'')]"
  have h: "list_all (\<lambda>k. getParsedType (get_prop ?kvs k) = PUndefined
                          \<or> getParsedType (get_prop ?kvs k) = PString)
             (map fst (shape_of propertyFilterSchema))"
    by (simp add: propertyFilterSchema_def object_defs)
  have k: "map (\<lambda>k. (k, get_prop ?kvs k))
             (filter (has_prop ?kvs) (map fst (shape_of propertyFilterSchema)))
           = [(''city'', JStr ''Austin'')]"
    by (simp add: propertyFilterSchema_def object_defs)
  show ?thesis
    using filter_strips_unknown_keys [OF h] unfolding k .
qed

section \<open>Defaults at creation\<close>

lemma user_distinct: "distinct (map fst (shape_of insertUserSchema))"
  by (simp add: user_shape)

lemma user_object: "insertUserSchema = ZObject (shape_of insertUserSchema)"
  by (simp add: user_shape)

lemma validated_field:
  assumes "safeParse S (JObject kvs) = Inr (JObject out)"
    and "S = ZObject (shape_of S)"
    and "distinct (map fst (shape_of S))"
    and "(f, s) \<in> set (shape_of S)"
  shows "parse s [Key f] (get_prop kvs f) = Inr (get_prop out f)"
    and "has_prop out f = (get_prop out f \<noteq> JUndefined \<or> has_prop kvs f)"
  using valid_field [of "shape_of S" kvs "JObject out" f s] assms by auto

lemma required_result:
  assumes "s \<in> required_schemas" and "parse s p v = Inr w"
  shows "w \<noteq> JUndefined \<and> w \<noteq> JNull"
proof -
  have "getParsedType w = PString \<or> getParsedType w = PNumber \<or> getParsedType w = PNan"
    using assms unfolding required_schemas_def
    by (cases v) (auto simp: expect_type_def string_to_number_def number_to_string_def
                       split: if_splits)
  then show ?thesis by auto
qed

lemma property_required_present:
  assumes ok: "safeParse insertPropertySchema (JObject kvs) = Inr (JObject out)"
    and f: "f \<in> {''title'', ''description'', ''price'', ''address'', ''city'', ''state'',
                 ''zipCode'', ''lat'', ''lng'', ''bedrooms'', ''bathrooms'', ''squareFeet'',
                 ''propertyType'', ''listingType'', ''imageUrl'', ''userId''}"
  shows "get_prop out f \<noteq> JUndefined \<and> get_prop out f \<noteq> JNull"
proof -
  from required_property_fields [OF f]
  obtain s where s: "s \<in> required_schemas"
    and mem: "(f, s) \<in> set (shape_of insertPropertySchema)" by blast
  from validated_field(1) [OF ok property_object property_distinct mem]
  show ?thesis using required_result [OF s] by blast
qed

lemma create_entity_accepts:
  assumes "list_all (\<lambda>(k, c). notNull c \<longrightarrow> stored c i t (get_prop vals k) \<noteq> JNull) tbl"
  shows "create_entity tbl i t vals
           = Inr (map (\<lambda>(k, c). (k, stored c i t (get_prop vals k))) tbl)"
proof -
  have "filter (\<lambda>(k, c). notNull c \<and> stored c i t (get_prop vals k) = JNull) tbl = []"
    using assms by (auto simp: filter_empty_conv list_all_iff)
  then show ?thesis by (simp add: create_entity_def)
qed

lemma created_value:
  assumes "distinct (map fst tbl)" and "(k, c) \<in> set tbl"
  shows "get_prop (map (\<lambda>(k, c). (k, stored c i t (get_prop vals k))) tbl) k
           = stored c i t (get_prop vals k)"
proof -
  have "map_of (map (\<lambda>(k, c). (k, stored c i t (get_prop vals k))) tbl) k
          = Some (stored c i t (get_prop vals k))"
    using assms by (induction tbl) force+
  then show ?thesis by (simp add: get_prop_def)
qed

lemma optional_absent:
  "\<not> has_prop kvs f \<Longrightarrow> parse (ZOptional s) p (get_prop kvs f) = Inr w \<Longrightarrow> w = JUndefined"
  by (simp add: has_prop_def get_prop_def)

lemma properties_distinct: "distinct (map fst properties)"
  by (simp add: properties_def)

lemma users_distinct: "distinct (map fst users)"
  by (simp add: users_def)

lemma property_row:
  assumes ok: "safeParse insertPropertySchema (JObject kvs) = Inr (JObject out)"
  shows "create_entity properties i t out
           = Inr (map (\<lambda>(k, c). (k, stored c i t (get_prop out k))) properties)"
proof -
  note req = property_required_present [OF ok]
  have id: "get_prop out ''id'' = JUndefined"
    using property_result_keys [OF ok] by (simp add: has_prop_def get_prop_def)
  show ?thesis
    by (rule create_entity_accepts)
       (simp add: properties_def column_defs stored_def id req)
qed

lemma property_default:
  assumes ok: "safeParse insertPropertySchema (JObject kvs) = Inr (JObject out)"
    and mem: "(f, ZOptional s) \<in> set (shape_of insertPropertySchema)"
    and col: "(f, c) \<in> set properties"
    and absent: "\<not> has_prop kvs f"
  shows "get_prop (map (\<lambda>(k, c). (k, stored c i t (get_prop out k))) properties) f
           = stored c i t JUndefined"
proof -
  have "get_prop out f = JUndefined"
    using validated_field(1) [OF ok property_object property_distinct mem]
          optional_absent [OF absent] by metis
  then show ?thesis using created_value [OF properties_distinct col] by simp
qed

lemma user_row:
  assumes ok: "safeParse insertUserSchema (JObject kvs) = Inr (JObject out)"
    and absent: "\<not> has_prop kvs ''savedProperties''"
  shows "create_entity users i t out
           = Inr (map (\<lambda>(k, c). (k, stored c i t (get_prop out k))) users)"
    and "get_prop out ''savedProperties'' = JUndefined"
proof -
  have req: "get_prop out f \<noteq> JUndefined \<and> get_prop out f \<noteq> JNull"
    if "f \<in> {''username'', ''password'', ''email'', ''fullName''}" for f
  proof -
    have mem: "(f, ZString) \<in> set (shape_of insertUserSchema)"
      using that by (auto simp: user_shape)
    have "ZString \<in> required_schemas" by (simp add: required_schemas_def)
    from required_result [OF this validated_field(1) [OF ok user_object user_distinct mem]]
    show ?thesis .
  qed
  have "parse (ZOptional ZNumber) [Key ''id''] (get_prop kvs ''id'') = Inr (get_prop out ''id'')"
    by (rule validated_field(1) [OF ok user_object user_distinct]) (simp add: user_shape)
  then have id: "get_prop out ''id'' \<noteq> JNull"
    by (auto simp: expect_type_def split: if_splits)
  have "parse (ZOptional (ZArray ZNumber)) [Key ''savedProperties'']
          (get_prop kvs ''savedProperties'') = Inr (get_prop out ''savedProperties'')"
    by (rule validated_field(1) [OF ok user_object user_distinct]) (simp add: user_shape)
  then show saved: "get_prop out ''savedProperties'' = JUndefined"
    using optional_absent [OF absent] by metis
  show "create_entity users i t out
           = Inr (map (\<lambda>(k, c). (k, stored c i t (get_prop out k))) users)"
    by (rule create_entity_accepts)
       (simp add: users_def column_defs stored_def id saved req)
qed

text \<open>
  Claim C5: a user payload that validates and has no \<^verbatim>\<open>savedProperties\<close> is created
  with the empty collection; a property payload that validates is created with
  \<^verbatim>\<open>featured = false\<close>, \<^verbatim>\<open>status = "available"\<close>, \<^verbatim>\<open>avgRating = "0"\<close> and
  \<^verbatim>\<open>ratingCount = 0\<close>, each when the payload does not have the field. The defaults are
  those the tables declare; the validation leaves an absent field absent, and the
  creation, as the specification describes it, fills it in.
\<close>

theorem defaults_at_creation:
  "(safeParse insertUserSchema (JObject kvs) = Inr (JObject out)
      \<and> \<not> has_prop kvs ''savedProperties'' \<longrightarrow>
    (\<exists>row. create_entity users i t out = Inr row
        \<and> get_prop row ''savedProperties'' = JArray []))
   \<and> (safeParse insertPropertySchema (JObject kvs) = Inr (JObject out) \<longrightarrow>
    (\<exists>row. create_entity properties i t out = Inr row
        \<and> (\<not> has_prop kvs ''featured'' \<longrightarrow> get_prop row ''featured'' = JBool False)
        \<and> (\<not> has_prop kvs ''status'' \<longrightarrow> get_prop row ''status'' = JStr ''available'')
        \<and> (\<not> has_prop kvs ''avgRating'' \<longrightarrow> get_prop row ''avgRating'' = JStr ''0'')
        \<and> (\<not> has_prop kvs ''ratingCount'' \<longrightarrow> get_prop row ''ratingCount'' = JNum (Fin 0))))"
proof (intro conjI impI)
  assume a: "safeParse insertUserSchema (JObject kvs) = Inr (JObject out)
      \<and> \<not> has_prop kvs ''savedProperties''"
  let ?c = "default_to (JArray []) (not_null (array (integer_col ''saved_properties'')))"
  have col: "(''savedProperties'', ?c) \<in> set users" by (simp add: users_def)
  have "get_prop (map (\<lambda>(k, c). (k, stored c i t (get_prop out k))) users) ''savedProperties''
          = JArray []"
    using created_value [OF users_distinct col, of i t out] user_row(2) [of kvs out] a
    by (simp add: stored_def column_defs)
  then show "\<exists>row. create_entity users i t out = Inr row
        \<and> get_prop row ''savedProperties'' = JArray []"
    using user_row(1) [of kvs out i t] a by simp
next
  assume ok: "safeParse insertPropertySchema (JObject kvs) = Inr (JObject out)"
  let ?row = "map (\<lambda>(k, c). (k, stored c i t (get_prop out k))) properties"
  have f: "\<not> has_prop kvs ''featured'' \<Longrightarrow> get_prop ?row ''featured'' = JBool False"
    using property_default [OF ok, of "''featured''" "ZNullable ZBoolean"
            "default_to (JBool False) (boolean ''featured'')" i t]
    by (simp add: property_shape properties_def stored_def column_defs)
  have s: "\<not> has_prop kvs ''status'' \<Longrightarrow> get_prop ?row ''status'' = JStr ''available''"
    using property_default [OF ok, of "''status''" "ZNullable ZString"
            "default_to (JStr ''available'') (text_col ''status'')" i t]
    by (simp add: property_shape properties_def stored_def column_defs)
  have a: "\<not> has_prop kvs ''avgRating'' \<Longrightarrow> get_prop ?row ''avgRating'' = JStr ''0''"
    using property_default [OF ok, of "''avgRating''" "ZNullable ZString"
            "default_to (JStr ''0'') (numeric ''avg_rating'')" i t]
    by (simp add: property_shape properties_def stored_def column_defs)
  have r: "\<not> has_prop kvs ''ratingCount'' \<Longrightarrow> get_prop ?row ''ratingCount'' = JNum (Fin 0)"
    using property_default [OF ok, of "''ratingCount''" "ZNullable ZNumber"
            "default_to (JNum (Fin 0)) (integer_col ''rating_count'')" i t]
    by (simp add: property_shape properties_def stored_def column_defs)
  show "\<exists>row. create_entity properties i t out = Inr row
        \<and> (\<not> has_prop kvs ''featured'' \<longrightarrow> get_prop row ''featured'' = JBool False)
        \<and> (\<not> has_prop kvs ''status'' \<longrightarrow> get_prop row ''status'' = JStr ''available'')
        \<and> (\<not> has_prop kvs ''avgRating'' \<longrightarrow> get_prop row ''avgRating'' = JStr ''0'')
        \<and> (\<not> has_prop kvs ''ratingCount'' \<longrightarrow> get_prop row ''ratingCount'' = JNum (Fin 0))"
    using property_row [OF ok, of i t] f s a r by simp
qed

theorem defaults_at_creation_witness:
  "safeParse insertUserSchema (JObject example_user) = Inr (JObject example_user)
   \<and> \<not> has_prop example_user ''savedProperties''
   \<and> (\<exists>row. create_entity users 1 0 example_user = Inr row
          \<and> get_prop row ''savedProperties'' = JArray [])
   \<and> safeParse insertPropertySchema (JObject example_property) = Inr (JObject example_property)
   \<and> \<not> has_prop example_property ''featured'' \<and> \<not> has_prop example_property ''status''
   \<and> \<not> has_prop example_property ''avgRating'' \<and> \<not> has_prop example_property ''ratingCount''
   \<and> (\<exists>row. create_entity properties 1 0 example_property = Inr row
          \<and> get_prop row ''featured'' = JBool False
          \<and> get_prop row ''status'' = JStr ''available''
          \<and> get_prop row ''avgRating'' = JStr ''0''
          \<and> get_prop row ''ratingCount'' = JNum (Fin 0))"
proof -
  have u: "safeParse insertUserSchema (JObject example_user) = Inr (JObject example_user)"
    by (simp add: safeParse_def user_shape example_user_def object_defs)
  have p: "safeParse insertPropertySchema (JObject example_property)
             = Inr (JObject example_property)"
    by (simp add: safeParse_def property_shape example_property_def object_defs)
  have a: "\<not> has_prop example_user ''savedProperties''"
    "\<not> has_prop example_property ''featured''" "\<not> has_prop example_property ''status''"
    "\<not> has_prop example_property ''avgRating''" "\<not> has_prop example_property ''ratingCount''"
    by (simp_all add: example_user_def example_property_def has_prop_def)
  show ?thesis
    using u p a
      defaults_at_creation [of example_user example_user 1 0]
      defaults_at_creation [of example_property example_property 1 0]
    by simp
qed

section \<open>Canonical payloads\<close>

lemma mergeArray_unchanged:
  assumes "\<forall>x \<in> set xs. \<forall>q. parse s q x = Inr x"
  shows "mergeArray (map (\<lambda>(i, x). parse s (p @ [Index i]) x) (enumerate n xs)) = Inr xs"
  using assms by (induction xs arbitrary: n) simp_all

lemma canonical_base:
  "canonical_value ct v \<Longrightarrow> parse (mapColumnToSchema ct) p v = Inr v"
proof (induction ct arbitrary: v p)
  case (PgArray ct)
  then obtain xs where v: "v = JArray xs" and xs: "list_all (canonical_value ct) xs"
    by (cases v) auto
  have "\<forall>x \<in> set xs. \<forall>q. parse (mapColumnToSchema ct) q x = Inr x"
    using PgArray.IH xs by (auto simp: list_all_iff)
  from mergeArray_unchanged [OF this] show ?case by (simp add: v)
qed (auto simp: expect_type_def split: jsval.splits)

lemma canonical_typed:
  "canonical_value ct v \<Longrightarrow> v \<noteq> JUndefined \<and> v \<noteq> JNull"
  by (cases ct; cases v) auto

lemma modifiers_unchanged:
  assumes ok: "column_ok c v"
    and base: "\<And>w q. canonical_value (columnType c) w \<Longrightarrow> parse b q w = Inr w"
  shows "parse (insert_modifiers c b) p v = Inr v"
  using ok base [of v p] canonical_typed [of "columnType c" v]
  by (auto simp: column_ok_def insert_modifiers_def)

lemma canonical_row_column:
  assumes row: "canonical_row tbl omitted kvs"
    and dist: "distinct (map fst tbl)"
    and col: "(k, c) \<in> set tbl"
    and k: "k \<notin> set omitted"
  shows "column_ok c (get_prop kvs k)"
proof (cases "map_of kvs k")
  case None
  then have "\<not> has_prop kvs k" "get_prop kvs k = JUndefined"
    by (simp_all add: has_prop_def get_prop_def)
  moreover have "k \<in> set omitted \<or> has_prop kvs k \<or> hasDefault c \<or> \<not> notNull c"
    using row col by (auto simp: canonical_row_def list_all_iff)
  ultimately show ?thesis using k by (simp add: column_ok_def)
next
  case (Some v)
  then have "(k, v) \<in> set kvs" by (rule map_of_SomeD)
  then have "canonical_property tbl omitted (k, v)"
    using row by (auto simp: canonical_row_def list_all_iff)
  moreover have "map_of tbl k = Some c" using dist col by simp
  ultimately show ?thesis using Some by (auto simp: canonical_property_def column_ok_def get_prop_def)
qed

lemma canonical_row_keys:
  assumes row: "canonical_row tbl omitted kvs"
  shows "fst ` set kvs \<subseteq> fst ` set tbl - set omitted"
proof
  fix k assume "k \<in> fst ` set kvs"
  then obtain v where "(k, v) \<in> set kvs" by auto
  then have "canonical_property tbl omitted (k, v)"
    using row by (auto simp: canonical_row_def list_all_iff)
  then obtain c where "map_of tbl k = Some c" and "k \<notin> set omitted"
    by (auto simp: canonical_property_def split: option.splits)
  then have "(k, c) \<in> set tbl" and "k \<notin> set omitted"
    by (auto dest: map_of_SomeD)
  then show "k \<in> fst ` set tbl - set omitted" by force
qed

lemma object_unchanged:
  assumes dist: "distinct (map fst shape)"
    and fields: "\<forall>(k, s) \<in> set shape. parse s [Key k] (get_prop kvs k) = Inr (get_prop kvs k)"
    and keys: "fst ` set kvs \<subseteq> fst ` set shape"
  shows "\<exists>out. safeParse (ZObject shape) (JObject kvs) = Inr (JObject out)
           \<and> map_of out = map_of kvs"
proof -
  let ?ps = "field_results shape [] kvs"
  have allv: "all_valid ?ps"
    unfolding all_valid_fields using fields by (auto simp: list_all_iff)
  have d: "distinct (map fst ?ps)" using dist by (simp add: field_results_keys)
  have "map_of (written ?ps) k = map_of kvs k" for k
  proof (cases "k \<in> fst ` set shape")
    case True
    then obtain s where mem: "(k, s) \<in> set shape" by auto
    have m: "(k, has_prop kvs k, Inr (get_prop kvs k)) \<in> set ?ps"
      using field_results_mem [OF mem, of kvs "[]"] fields mem by auto
    show ?thesis
      unfolding map_of_written [OF d m]
      by (auto simp: has_prop_def get_prop_def split: option.splits)
  next
    case False
    then have "k \<notin> fst ` set (written ?ps)"
      using written_keys [of ?ps] field_results_keys [of shape "[]" kvs]
      by (metis set_map subsetD)
    moreover have "k \<notin> fst ` set kvs" using False keys by auto
    ultimately have "map_of (written ?ps) k = None" and "map_of kvs k = None"
      by (simp_all add: map_of_eq_None_iff)
    then show ?thesis by simp
  qed
  then have "map_of (written ?ps) = map_of kvs" by (rule ext)
  then show ?thesis using allv unfolding safeParse_def parse_object_eq by simp
qed

lemma createInsertSchema_shape:
  "createInsertSchema tbl refine =
     ZObject (map (\<lambda>(k, c). (k, insert_modifiers c (refined_schema tbl refine k c))) tbl)"
proof -
  have "map (\<lambda>((k, c), (k', s)). (k, insert_modifiers c s))
          (zip xs (map (refine_entry E refine)
                     (map (\<lambda>(k, c). (k, mapColumnToSchema (columnType c))) xs)))
        = map (\<lambda>(k, c). (k, insert_modifiers c
                 (snd (refine_entry E refine (k, mapColumnToSchema (columnType c)))))) xs"
    for xs :: table and E
    by (induction xs) (auto simp: case_prod_unfold)
  then show ?thesis
    by (simp add: createInsertSchema_def refined_schema_def)
qed

lemma refined_schema_plain:
  "map_of refine k = None \<Longrightarrow> refined_schema tbl refine k c = mapColumnToSchema (columnType c)"
  by (simp add: refined_schema_def refine_entry_def)

lemma refined_schema_replace:
  "map_of refine k = Some (Replace s) \<Longrightarrow> refined_schema tbl refine k c = s"
  by (simp add: refined_schema_def refine_entry_def)

lemma insert_unchanged:
  assumes row: "canonical_row tbl omitted kvs"
    and dist: "distinct (map fst tbl)"
    and base: "\<And>k c w q. (k, c) \<in> set tbl \<Longrightarrow> k \<notin> set omitted \<Longrightarrow>
                 canonical_value (columnType c) w \<Longrightarrow>
                 parse (refined_schema tbl refine k c) q w = Inr w"
  shows "\<exists>out. safeParse (omit omitted (createInsertSchema tbl refine)) (JObject kvs)
                  = Inr (JObject out)
           \<and> map_of out = map_of kvs"
proof -
  let ?full = "map (\<lambda>(k, c). (k, insert_modifiers c (refined_schema tbl refine k c))) tbl"
  let ?shape = "filter (\<lambda>(k, s). k \<notin> set omitted) ?full"
  have S: "omit omitted (createInsertSchema tbl refine) = ZObject ?shape"
    by (simp add: createInsertSchema_shape)
  have "map fst (map (\<lambda>(k, c). (k, g k c)) xs) = map fst xs"
    for g :: "string \<Rightarrow> column \<Rightarrow> zschema" and xs
    by (induction xs) auto
  then have "map fst ?full = map fst tbl" .
  with dist have "distinct (map fst ?full)" by (simp only:)
  then have d: "distinct (map fst ?shape)" by (rule distinct_map_filter)
  have fields: "\<forall>(k, s) \<in> set ?shape. parse s [Key k] (get_prop kvs k) = Inr (get_prop kvs k)"
  proof (clarify)
    fix k s assume "(k, s) \<in> set ?shape"
    then obtain c where col: "(k, c) \<in> set tbl"
      and s: "s = insert_modifiers c (refined_schema tbl refine k c)"
      and k: "k \<notin> set omitted" by auto
    show "parse s [Key k] (get_prop kvs k) = Inr (get_prop kvs k)"
      unfolding s
      by (rule modifiers_unchanged [OF canonical_row_column [OF row dist col k]])
         (rule base [OF col k])
  qed
  have "fst ` set ?shape = fst ` set tbl - set omitted"
    by force
  then have keys: "fst ` set kvs \<subseteq> fst ` set ?shape"
    using canonical_row_keys [OF row] by simp
  from object_unchanged [OF d fields keys] show ?thesis
    unfolding S .
qed

lemma decimal_unchanged:
  "canonical_value PgNumeric w \<Longrightarrow>
     parse (ZUnion [ZString, ZEffects ZNumber number_to_string]) q w = Inr w"
  unfolding decimal_field by (cases w) (auto split: if_splits)

lemma count_unchanged:
  "canonical_value PgInteger w \<Longrightarrow>
     parse (ZUnion [ZNumber, ZEffects ZString string_to_number]) q w = Inr w"
  unfolding count_field by (cases w) (auto split: if_splits)

lemma year_unchanged:
  "canonical_value PgInteger w \<Longrightarrow>
     parse (ZUnion [ZOptional ZNumber, ZOptional (ZEffects ZString string_to_year)]) q w = Inr w"
  by (cases w) (auto simp: expect_type_def split: if_splits)

lemma date_unchanged:
  "canonical_value PgTimestamp w \<Longrightarrow>
     parse (ZUnion [ZDate, ZEffects ZString (string_to_date h)]) q w = Inr w"
  unfolding date_field by (cases w) auto

lemma refined_schema_same:
  assumes "map_of refine k = Some (Refine (\<lambda>schema. entry schema k))"
    and "distinct (map fst tbl)" and "(k, c) \<in> set tbl"
  shows "refined_schema tbl refine k c = mapColumnToSchema (columnType c)"
proof -
  have "map_of tbl k = Some c" using assms(2,3) by simp
  then have "map_of (map (\<lambda>(k, c). (k, mapColumnToSchema (columnType c))) tbl) k
               = Some (mapColumnToSchema (columnType c))"
    by (simp add: map_of_map)
  then show ?thesis
    using assms(1) by (simp add: refined_schema_def refine_entry_def entry_def)
qed

lemma user_unchanged:
  assumes "canonical_row users [] kvs"
  shows "\<exists>out. safeParse insertUserSchema (JObject kvs) = Inr (JObject out)
           \<and> map_of out = map_of kvs"
proof -
  define R where "R =
       [(''username'', Refine (\<lambda>schema. entry schema ''username'')),
        (''password'', Refine (\<lambda>schema. entry schema ''password'')),
        (''email'', Refine (\<lambda>schema. entry schema ''email'')),
        (''fullName'', Refine (\<lambda>schema. entry schema ''fullName''))]"
  have "omit [] (createInsertSchema users R) = createInsertSchema users R"
    unfolding createInsertSchema_shape by simp
  then have S: "insertUserSchema = omit [] (createInsertSchema users R)"
    by (simp only: insertUserSchema_def R_def)
  have base: "parse (refined_schema users R k c) q w = Inr w"
    if col: "(k, c) \<in> set users" and can: "canonical_value (columnType c) w"
    for k c w q
  proof (cases "map_of R k")
    case None
    then show ?thesis using canonical_base [OF can] by (simp add: refined_schema_plain)
  next
    case (Some r)
    then have "(k, r) \<in> set R" by (rule map_of_SomeD)
    then have "r = Refine (\<lambda>schema. entry schema k)" by (auto simp: R_def)
    with Some have "refined_schema users R k c = mapColumnToSchema (columnType c)"
      using refined_schema_same [OF _ users_distinct col] by simp
    then show ?thesis using canonical_base [OF can] by simp
  qed
  show ?thesis
    unfolding S
    by (rule insert_unchanged [OF assms users_distinct]) (rule base)
qed

lemma property_column_types:
  "map_of properties ''price'' = Some c \<Longrightarrow> columnType c = PgNumeric"
  "map_of properties ''lat'' = Some c \<Longrightarrow> columnType c = PgNumeric"
  "map_of properties ''lng'' = Some c \<Longrightarrow> columnType c = PgNumeric"
  "map_of properties ''bedrooms'' = Some c \<Longrightarrow> columnType c = PgInteger"
  "map_of properties ''bathrooms'' = Some c \<Longrightarrow> columnType c = PgInteger"
  "map_of properties ''squareFeet'' = Some c \<Longrightarrow> columnType c = PgInteger"
  "map_of properties ''yearBuilt'' = Some c \<Longrightarrow> columnType c = PgInteger"
  by (auto simp: properties_def column_defs)

lemma property_unchanged:
  assumes "canonical_row properties [''id'', ''createdAt''] kvs"
  shows "\<exists>out. safeParse insertPropertySchema (JObject kvs) = Inr (JObject out)
           \<and> map_of out = map_of kvs"
proof -
  define R where "R =
          [(''price'', Replace (ZUnion [ZString, ZEffects ZNumber number_to_string])),
           (''lat'', Replace (ZUnion [ZString, ZEffects ZNumber number_to_string])),
           (''lng'', Replace (ZUnion [ZString, ZEffects ZNumber number_to_string])),
           (''bedrooms'', Replace (ZUnion [ZNumber, ZEffects ZString string_to_number])),
           (''bathrooms'', Replace (ZUnion [ZNumber, ZEffects ZString string_to_number])),
           (''squareFeet'', Replace (ZUnion [ZNumber, ZEffects ZString string_to_number])),
           (''yearBuilt'',
              Replace (ZUnion [ZOptional ZNumber,
                               ZOptional (ZEffects ZString string_to_year)]))]"
  have S: "insertPropertySchema = omit [''id'', ''createdAt''] (createInsertSchema properties R)"
    by (simp add: insertPropertySchema_def R_def)
  have base: "parse (refined_schema properties R k c) q w = Inr w"
    if col: "(k, c) \<in> set properties" and can: "canonical_value (columnType c) w"
    for k c w q
  proof (cases "map_of R k")
    case None
    then show ?thesis using canonical_base [OF can] by (simp add: refined_schema_plain)
  next
    case (Some r)
    then have "(k, r) \<in> set R" by (rule map_of_SomeD)
    then have kr:
      "k \<in> {''price'', ''lat'', ''lng''}
         \<and> r = Replace (ZUnion [ZString, ZEffects ZNumber number_to_string])
       \<or> k \<in> {''bedrooms'', ''bathrooms'', ''squareFeet''}
         \<and> r = Replace (ZUnion [ZNumber, ZEffects ZString string_to_number])
       \<or> k = ''yearBuilt''
         \<and> r = Replace (ZUnion [ZOptional ZNumber,
                                 ZOptional (ZEffects ZString string_to_year)])"
      by (auto simp: R_def)
    have c: "map_of properties k = Some c"
      using col properties_distinct by simp
    from kr c consider
        (decimal) "r = Replace (ZUnion [ZString, ZEffects ZNumber number_to_string])"
                  "columnType c = PgNumeric"
      | (count) "r = Replace (ZUnion [ZNumber, ZEffects ZString string_to_number])"
                "columnType c = PgInteger"
      | (year) "r = Replace (ZUnion [ZOptional ZNumber,
                                     ZOptional (ZEffects ZString string_to_year)])"
               "columnType c = PgInteger"
      using property_column_types by blast
    then show ?thesis
    proof cases
      case decimal
      then show ?thesis
        using Some can decimal_unchanged by (simp add: refined_schema_replace)
    next
      case count
      then show ?thesis
        using Some can count_unchanged by (simp add: refined_schema_replace)
    next
      case year
      then show ?thesis
        using Some can year_unchanged by (simp add: refined_schema_replace)
    qed
  qed
  show ?thesis
    unfolding S
    by (rule insert_unchanged [OF assms properties_distinct]) (rule base)
qed

lemma appointments_distinct: "distinct (map fst appointments)"
  by (simp add: appointments_def)

lemma appointment_unchanged:
  assumes "canonical_row appointments [''id'', ''createdAt''] kvs"
  shows "\<exists>out. safeParse (insertAppointmentSchema h) (JObject kvs) = Inr (JObject out)
           \<and> map_of out = map_of kvs"
proof -
  define R where "R = [(''date'', Replace (ZUnion [ZDate, ZEffects ZString (string_to_date h)]))]"
  have S: "insertAppointmentSchema h
             = omit [''id'', ''createdAt''] (createInsertSchema appointments R)"
    by (simp add: insertAppointmentSchema_def R_def)
  have base: "parse (refined_schema appointments R k c) q w = Inr w"
    if col: "(k, c) \<in> set appointments" and can: "canonical_value (columnType c) w"
    for k c w q
  proof (cases "map_of R k")
    case None
    then show ?thesis using canonical_base [OF can] by (simp add: refined_schema_plain)
  next
    case (Some r)
    then have "(k, r) \<in> set R" by (rule map_of_SomeD)
    moreover have "map_of appointments k = Some c"
      using col appointments_distinct by simp
    ultimately have "r = Replace (ZUnion [ZDate, ZEffects ZString (string_to_date h)])"
      and "columnType c = PgTimestamp"
      by (auto simp: R_def appointments_def column_defs)
    then show ?thesis
      using Some can date_unchanged by (simp add: refined_schema_replace)
  qed
  show ?thesis
    unfolding S
    by (rule insert_unchanged [OF assms appointments_distinct]) (rule base)
qed

text \<open>
  Claim C8 says that validation is idempotent on canonical values: a payload whose
  numeric fields are numbers, whose textual fields are strings and whose date is a date
  validates to itself. It fails for the number NaN and for the invalid date, which
  \<^verbatim>\<open>z.number()\<close> and \<^verbatim>\<open>z.date()\<close> reject, and the validation produces such values itself:
  the validated form of a property whose \<^verbatim>\<open>bedrooms\<close> is \<^verbatim>\<open>"three"\<close> has the number NaN
  there, and validating it again fails.
\<close>

theorem validation_not_idempotent_counterexample:
  "safeParse insertPropertySchema
     (JObject (put_prop ''bedrooms'' (JStr ''three'') example_property))
     = Inr (JObject (put_prop ''bedrooms'' (JNum NaN) example_property))
   \<and> safeParse insertPropertySchema
       (JObject (put_prop ''bedrooms'' (JNum NaN) example_property))
     = Inl [Invalid_union [Key ''bedrooms'']
              [[Invalid_type [Key ''bedrooms''] PNumber PNan],
               [Invalid_type [Key ''bedrooms''] PString PNan]]]"
  by (simp add: safeParse_def property_shape example_property_def object_defs
        string_to_number_def Number_js_defs)

text \<open>
  Claim C8, amended: a payload in the canonical shape of the users, of the properties
  or of the appointments (without \<^verbatim>\<open>id\<close> and \<^verbatim>\<open>createdAt\<close> for the last two), whose
  numbers are not NaN and whose dates are valid, validates, and the result has the
  properties of the payload with their values, unchanged.
\<close>

theorem canonical_insert_unchanged:
  "(canonical_row users [] kvs \<longrightarrow>
      (\<exists>out. safeParse insertUserSchema (JObject kvs) = Inr (JObject out)
           \<and> map_of out = map_of kvs))
   \<and> (canonical_row properties [''id'', ''createdAt''] kvs \<longrightarrow>
      (\<exists>out. safeParse insertPropertySchema (JObject kvs) = Inr (JObject out)
           \<and> map_of out = map_of kvs))
   \<and> (canonical_row appointments [''id'', ''createdAt''] kvs \<longrightarrow>
      (\<exists>out. safeParse (insertAppointmentSchema h) (JObject kvs) = Inr (JObject out)
           \<and> map_of out = map_of kvs))"
  using user_unchanged property_unchanged appointment_unchanged by blast

theorem canonical_insert_unchanged_witness:
  "canonical_row users [] ((''savedProperties'', JArray [JNum (Fin 4)]) # example_user)
   \<and> (\<exists>out. safeParse insertUserSchema
               (JObject ((''savedProperties'', JArray [JNum (Fin 4)]) # example_user))
               = Inr (JObject out)
          \<and> map_of out = map_of ((''savedProperties'', JArray [JNum (Fin 4)]) # example_user))
   \<and> canonical_row properties [''id'', ''createdAt''] example_property
   \<and> (\<exists>out. safeParse insertPropertySchema (JObject example_property) = Inr (JObject out)
          \<and> map_of out = map_of example_property)
   \<and> canonical_row appointments [''id'', ''createdAt''] example_appointment
   \<and> (\<exists>out. safeParse (insertAppointmentSchema utc_host) (JObject example_appointment)
               = Inr (JObject out)
          \<and> map_of out = map_of example_appointment)"
proof -
  let ?user = "(''savedProperties'', JArray [JNum (Fin 4)]) # example_user"
  have u: "canonical_row users [] ?user"
    by (simp add: canonical_row_def canonical_property_def users_def example_user_def
          column_defs has_prop_def)
  have p: "canonical_row properties [''id'', ''createdAt''] example_property"
    by (simp add: canonical_row_def canonical_property_def properties_def
          example_property_def column_defs has_prop_def)
  have a: "canonical_row appointments [''id'', ''createdAt''] example_appointment"
    by (simp add: canonical_row_def canonical_property_def appointments_def
          example_appointment_def column_defs has_prop_def)
  show ?thesis
    using u p a
      canonical_insert_unchanged [of ?user]
      canonical_insert_unchanged [of example_property]
      canonical_insert_unchanged [of example_appointment utc_host]
    by blast
qed

end
